theory Spec2Isabelle
  imports Complex_Main "HOL-Library.Multiset"
begin

section \<open>Python strings and integers\<close>

text \<open>
  A Python \<open>str\<close> is modelled as a \<open>string\<close> whose characters are the code points
  below 256. \<open>is_space\<close> is \<open>str.isspace\<close> on one such code point: the ASCII white
  space (tab to carriage return, the four separators \<open>0x1C\<close> to \<open>0x1F\<close>, the blank) and
  the two Latin-1 ones (\<open>0x85\<close>, \<open>0xA0\<close>). \<open>strip\<close> is \<open>str.strip()\<close>.
\<close>

definition is_space :: "char \<Rightarrow> bool" where
  "is_space c \<longleftrightarrow> (of_char c :: nat) \<in> {9, 10, 11, 12, 13, 28, 29, 30, 31, 32, 133, 160}"

definition strip :: "string \<Rightarrow> string" where
  "strip s = rev (dropWhile is_space (rev (dropWhile is_space s)))"

definition is_digit :: "char \<Rightarrow> bool" where
  "is_digit c \<longleftrightarrow> 48 \<le> (of_char c :: nat) \<and> (of_char c :: nat) \<le> 57"

definition digit_val :: "char \<Rightarrow> nat" where
  "digit_val c = of_char c - 48"

text \<open>
  \<open>py_int\<close> is the builtin \<open>int(s)\<close> on a string, base 10. The white space that
  \<open>int\<close> drops around the number is narrower than that of \<open>str.strip\<close>: tab to
  carriage return, the blank, and the two Latin-1 ones; the separators \<open>0x1C\<close> to
  \<open>0x1F\<close> are not dropped. Then one sign is allowed, then decimal digits with single
  underscores between digits. A text with more than \<open>int_max_str_digits\<close> digits (the
  interpreter's default limit, 4300) is refused. \<open>None\<close> stands for the
  \<open>ValueError\<close> that \<open>int\<close> raises.
\<close>

definition is_int_space :: "char \<Rightarrow> bool" where
  "is_int_space c \<longleftrightarrow> (of_char c :: nat) \<in> {9, 10, 11, 12, 13, 32, 133, 160}"

definition int_strip :: "string \<Rightarrow> string" where
  "int_strip s = rev (dropWhile is_int_space (rev (dropWhile is_int_space s)))"

definition int_max_str_digits :: nat where
  "int_max_str_digits = 4300"

fun py_digits :: "nat \<Rightarrow> string \<Rightarrow> nat option" where
  "py_digits acc [] = Some acc"
| "py_digits acc (c # cs) =
     (if is_digit c then py_digits (10 * acc + digit_val c) cs
      else if c = CHR ''_'' then
        (case cs of
           [] \<Rightarrow> None
         | d # ds \<Rightarrow> if is_digit d then py_digits (10 * acc + digit_val d) ds else None)
      else None)"

definition py_nat :: "string \<Rightarrow> nat option" where
  "py_nat s = (case s of
       [] \<Rightarrow> None
     | c # cs \<Rightarrow>
         if is_digit c then
           if length (filter is_digit s) > int_max_str_digits then None
           else py_digits (digit_val c) cs
         else None)"

definition py_int :: "string \<Rightarrow> int option" where
  "py_int s = (case int_strip s of
       [] \<Rightarrow> None
     | c # cs \<Rightarrow>
         if c = CHR ''-'' then map_option (\<lambda>n. - int n) (py_nat cs)
         else if c = CHR ''+'' then map_option int (py_nat cs)
         else map_option int (py_nat (c # cs)))"

text \<open>\<open>str(n)\<close> for a natural number, and the format \<open>{n:02d}\<close>.\<close>

definition digit_char :: "nat \<Rightarrow> char" where
  "digit_char d = ''0123456789'' ! d"

fun str_of_nat :: "nat \<Rightarrow> string" where
  "str_of_nat n =
     (if n < 10 then [digit_char n]
      else str_of_nat (n div 10) @ [digit_char (n mod 10)])"

definition fmt_02d :: "nat \<Rightarrow> string" where
  "fmt_02d n = (if n < 10 then CHR ''0'' # str_of_nat n else str_of_nat n)"

section \<open>TodoWidget\<close>

text \<open>
  The content state of a to-do widget once \<open>create_widget\<close> has run: the list
  \<open>self.tasks\<close> of \<open>{'text', 'completed'}\<close> entries, the text of the entry field, and
  the number of redraws (\<open>update_content\<close> calls) made so far.
\<close>

record task =
  task_text :: string
  completed :: bool

record todo =
  tasks :: "task list"
  entry :: string
  redraws :: nat

definition todo_update_content :: "todo \<Rightarrow> todo" where
  "todo_update_content t = t\<lparr>redraws := Suc (redraws t)\<rparr>"

definition add_task :: "todo \<Rightarrow> todo" where
  "add_task t =
     (let text = strip (entry t) in
      if text \<noteq> [] then
        todo_update_content
          (t\<lparr>tasks := tasks t @ [\<lparr>task_text = text, completed = False\<rparr>], entry := []\<rparr>)
      else t)"

text \<open>The user types \<open>s\<close> into the entry field and presses Add.\<close>

definition type_and_add :: "todo \<Rightarrow> string \<Rightarrow> todo" where
  "type_and_add t s = add_task (t\<lparr>entry := s\<rparr>)"

definition toggle_task :: "int \<Rightarrow> todo \<Rightarrow> todo" where
  "toggle_task index t =
     (if 0 \<le> index \<and> index < int (length (tasks t)) then
        todo_update_content
          (t\<lparr>tasks := (tasks t)[nat index :=
                (tasks t ! nat index)\<lparr>completed := \<not> completed (tasks t ! nat index)\<rparr>]\<rparr>)
      else t)"

text \<open>\<open>del self.tasks[index]\<close> for an index in range removes that one element.\<close>

definition delete_task :: "int \<Rightarrow> todo \<Rightarrow> todo" where
  "delete_task index t =
     (if 0 \<le> index \<and> index < int (length (tasks t)) then
        todo_update_content
          (t\<lparr>tasks := take (nat index) (tasks t) @ drop (Suc (nat index)) (tasks t)\<rparr>)
      else t)"

section \<open>TimerWidget\<close>

text \<open>
  The state of a timer widget once \<open>create_widget\<close> has run. \<open>time_display\<close> is the
  text of the label, \<open>winfo_exists\<close> tells whether that label still exists, and
  \<open>dialogs\<close> collects the message boxes shown so far, oldest first.
\<close>

datatype dialog = ShowError string string | ShowInfo string string

record timer =
  remaining_time :: int
  timer_active :: bool
  time_display :: string
  winfo_exists :: bool
  dialogs :: "dialog list"

text \<open>\<open>start_timer\<close> reads the text of \<open>minutes_var\<close>, passed here as \<open>minutes_var\<close>.\<close>

definition start_timer :: "string \<Rightarrow> timer \<Rightarrow> timer" where
  "start_timer minutes_var t =
     (case py_int minutes_var of
        Some minutes \<Rightarrow> t\<lparr>remaining_time := minutes * 60, timer_active := True\<rparr>
      | None \<Rightarrow>
          t\<lparr>dialogs := dialogs t @
               [ShowError ''Error'' ''Please enter a valid number of minutes'']\<rparr>)"

definition stop_timer :: "timer \<Rightarrow> timer" where
  "stop_timer t = t\<lparr>timer_active := False, remaining_time := 0, time_display := ''00:00''\<rparr>"

text \<open>One refresh tick of the timer (\<open>TimerWidget.update_content\<close>).\<close>

definition update_content :: "timer \<Rightarrow> timer" where
  "update_content t =
     (if winfo_exists t then
        if timer_active t \<and> remaining_time t > 0 then
          t\<lparr>time_display :=
               fmt_02d (nat (remaining_time t div 60)) @ '':'' @
               fmt_02d (nat (remaining_time t mod 60)),
            remaining_time := remaining_time t - 1\<rparr>
        else if timer_active t \<and> remaining_time t \<le> 0 then
          t\<lparr>time_display := ''TIME!'', timer_active := False,
            dialogs := dialogs t @ [ShowInfo ''Timer'' ''Time's up!'']\<rparr>
        else t
      else t)"

section \<open>JSON values and the Python operations on them\<close>

text \<open>
  The values that \<open>json.load\<close> returns and \<open>json.dump\<close> accepts. A Python \<open>dict\<close> with
  string keys is an association list in insertion order, read with \<open>map_of\<close>; a
  \<open>float\<close> is carried as a real number (no arithmetic is done on it). Writing such a
  value with \<open>json.dump\<close> and reading it back with \<open>json.load\<close> gives the same value.
\<close>

datatype json =
    JNull
  | JBool bool
  | JInt int
  | JFloat real
  | JStr string
  | JList "json list"
  | JObj "(string \<times> json) list"

datatype exn =
    KeyError string
  | TypeError
  | AttributeError
  | ValueError
  | IndexError
  | TclError

text \<open>Truth value of a Python object (\<open>x or y\<close>, \<open>if x\<close>).\<close>

fun py_bool :: "json \<Rightarrow> bool" where
  "py_bool JNull = False"
| "py_bool (JBool b) = b"
| "py_bool (JInt i) = (i \<noteq> 0)"
| "py_bool (JFloat r) = (r \<noteq> 0)"
| "py_bool (JStr s) = (s \<noteq> [])"
| "py_bool (JList l) = (l \<noteq> [])"
| "py_bool (JObj kvs) = (kvs \<noteq> [])"

text \<open>\<open>v[k]\<close> for a string key \<open>k\<close>: only a \<open>dict\<close> can answer.\<close>

fun py_getitem :: "json \<Rightarrow> string \<Rightarrow> exn + json" where
  "py_getitem (JObj kvs) k = (case map_of kvs k of None \<Rightarrow> Inl (KeyError k) | Some v \<Rightarrow> Inr v)"
| "py_getitem _ k = Inl TypeError"

text \<open>\<open>v.get(k, default)\<close>: only a \<open>dict\<close> has the method.\<close>

fun py_get :: "json \<Rightarrow> string \<Rightarrow> json \<Rightarrow> exn + json" where
  "py_get (JObj kvs) k d = (case map_of kvs k of None \<Rightarrow> Inr d | Some v \<Rightarrow> Inr v)"
| "py_get _ k d = Inl AttributeError"

text \<open>The elements that \<open>for e in v\<close> visits: a \<open>dict\<close> gives its keys, a \<open>str\<close> its characters.\<close>

fun py_iter :: "json \<Rightarrow> exn + json list" where
  "py_iter (JList l) = Inr l"
| "py_iter (JObj kvs) = Inr (map (\<lambda>kv. JStr (fst kv)) kvs)"
| "py_iter (JStr s) = Inr (map (\<lambda>c. JStr [c]) s)"
| "py_iter _ = Inl TypeError"

fun py_hashable :: "json \<Rightarrow> bool" where
  "py_hashable (JList l) = False"
| "py_hashable (JObj kvs) = False"
| "py_hashable _ = True"

section \<open>Widget classes and their default configuration\<close>

datatype widget_class = ClockWidget | TodoWidget | WeatherWidget | TimerWidget

fun get_default_config :: "widget_class \<Rightarrow> json" where
  "get_default_config ClockWidget = JObj
     [(''width'', JInt 280), (''height'', JInt 120), (''bg_color'', JStr ''#1C1B1F''),
      (''text_color'', JStr ''#FFFFFF''), (''accent_color'', JStr ''#D0BCFF''),
      (''font_family'', JStr ''Segoe UI''), (''font_size'', JInt 18),
      (''opacity'', JFloat 0.95), (''format_12h'', JBool True), (''corner_radius'', JInt 16)]"
| "get_default_config TodoWidget = JObj
     [(''width'', JInt 320), (''height'', JInt 400), (''bg_color'', JStr ''#FFFFFF''),
      (''text_color'', JStr ''#1C1B1F''), (''accent_color'', JStr ''#6750A4''),
      (''surface_color'', JStr ''#F7F2FA''), (''font_family'', JStr ''Segoe UI''),
      (''font_size'', JInt 11), (''opacity'', JFloat 0.95), (''max_items'', JInt 10)]"
| "get_default_config WeatherWidget = JObj
     [(''width'', JInt 300), (''height'', JInt 200), (''bg_color'', JStr ''#E3F2FD''),
      (''text_color'', JStr ''#1565C0''), (''accent_color'', JStr ''#2196F3''),
      (''font_family'', JStr ''Segoe UI''), (''font_size'', JInt 12),
      (''opacity'', JFloat 0.95), (''location'', JStr ''Calgary, AB'')]"
| "get_default_config TimerWidget = JObj
     [(''width'', JInt 250), (''height'', JInt 180), (''bg_color'', JStr ''#FFF3E0''),
      (''text_color'', JStr ''#E65100''), (''accent_color'', JStr ''#FF9800''),
      (''font_family'', JStr ''Segoe UI''), (''font_size'', JInt 14),
      (''opacity'', JFloat 0.95)]"

text \<open>
  A widget instance, as far as the manager reads it: its class and its \<open>config\<close>.
  \<open>BaseWidget_init\<close> is \<open>BaseWidget.__init__\<close>: \<open>config or self.get_default_config()\<close>.
\<close>

record widget_instance =
  inst_class :: widget_class
  config :: json

definition BaseWidget_init :: "widget_class \<Rightarrow> json \<Rightarrow> widget_instance" where
  "BaseWidget_init cls cfg =
     \<lparr>inst_class = cls, config = (if py_bool cfg then cfg else get_default_config cls)\<rparr>"

section \<open>DesktopWidget\<close>

text \<open>
  A \<open>DesktopWidget\<close> object: its position as the Python values stored in \<open>x\<close> and
  \<open>y\<close>, whether \<open>desktop_window\<close> holds a window, and \<open>is_pinned\<close>. The widget instance
  it points to is passed to \<open>pin_to_desktop\<close>, which every caller runs right after the
  constructor.

  The window toolkit is outside the program. A \<open>toolkit\<close> tells, for a widget class, a
  configuration, an opacity and a position, whether the toolkit calls of
  \<open>pin_to_desktop\<close> (window attributes, geometry, building the widget's frame) all
  return; where they do not, \<open>TclError\<close> stands for the exception they raise.
\<close>

record desktop_widget =
  dw_x :: json
  dw_y :: json
  desktop_window :: bool
  is_pinned :: bool

type_synonym toolkit = "widget_class \<Rightarrow> json \<Rightarrow> json \<Rightarrow> json \<Rightarrow> json \<Rightarrow> bool"

definition DesktopWidget :: "json \<Rightarrow> json \<Rightarrow> desktop_widget" where
  "DesktopWidget x y = \<lparr>dw_x = x, dw_y = y, desktop_window = False, is_pinned = False\<rparr>"

definition pin_to_desktop ::
  "toolkit \<Rightarrow> widget_instance \<Rightarrow> desktop_widget \<Rightarrow> desktop_widget \<times> exn option" where
  "pin_to_desktop tk widget_instance dw =
     (if is_pinned dw then (dw, None)
      else
        let dw1 = dw\<lparr>desktop_window := True\<rparr> in
        case py_get (config widget_instance) ''opacity'' (JFloat 0.9) of
          Inl e \<Rightarrow> (dw1, Some e)
        | Inr alpha \<Rightarrow>
            if tk (inst_class widget_instance) (config widget_instance) alpha (dw_x dw) (dw_y dw)
            then (dw1\<lparr>is_pinned := True\<rparr>, None)
            else (dw1, Some TclError))"

definition unpin_from_desktop :: "desktop_widget \<Rightarrow> desktop_widget" where
  "unpin_from_desktop dw =
     (if desktop_window dw then dw\<lparr>desktop_window := False, is_pinned := False\<rparr> else dw)"

section \<open>WidgetManager\<close>

text \<open>
  \<open>DesktopWidget\<close> objects are shared between a widget's \<open>widget_info\<close> and the list
  \<open>self.desktop_widgets\<close>, and compared by identity, so they live in a store: \<open>heap\<close> is
  the list of all objects allocated so far and a reference is an index into it. A new
  object is appended; none is ever freed.
\<close>

type_synonym addr = nat

record widget_info =
  wi_type :: string
  wi_instance :: widget_instance
  wi_name :: json
  wi_desktop_widget :: "addr option"

record manager =
  active_widgets :: "widget_info list"
  desktop_widgets :: "addr list"
  heap :: "desktop_widget list"

text \<open>What an operation shows to the user, or the exception that leaves it.\<close>

datatype report = Silent | Success_toast | Error_toast | Warning_toast | Info_toast | Raised exn

definition widget_types :: "(string \<times> widget_class) list" where
  "widget_types =
     [(''Clock'', ClockWidget), (''Todo List'', TodoWidget),
      (''Weather'', WeatherWidget), (''Timer'', TimerWidget)]"

text \<open>The manager after \<open>__init__\<close> when no layout file exists.\<close>

definition manager_init :: manager where
  "manager_init = \<lparr>active_widgets = [], desktop_widgets = [], heap = []\<rparr>"

text \<open>\<open>widget_info['desktop_widget'] and widget_info['desktop_widget'].is_pinned\<close>\<close>

definition info_pinned :: "manager \<Rightarrow> widget_info \<Rightarrow> bool" where
  "info_pinned m widget_info =
     (case wi_desktop_widget widget_info of
        None \<Rightarrow> False
      | Some a \<Rightarrow> is_pinned (heap m ! a))"

text \<open>\<open>pin_widget_to_desktop\<close> for the \<open>widget_info\<close> at position \<open>i\<close> of \<open>active_widgets\<close>.\<close>

definition pin_widget_to_desktop :: "toolkit \<Rightarrow> nat \<Rightarrow> manager \<Rightarrow> manager \<times> exn option" where
  "pin_widget_to_desktop tk i m =
     (let widget_info = active_widgets m ! i in
      if info_pinned m widget_info then (m, None)
      else
        let x = JInt (100 + int (length (desktop_widgets m)) * 30);
            y = JInt (100 + int (length (desktop_widgets m)) * 30);
            a = length (heap m);
            (dw, err) = pin_to_desktop tk (wi_instance widget_info) (DesktopWidget x y);
            m1 = m\<lparr>heap := heap m @ [dw]\<rparr>
        in case err of
             Some e \<Rightarrow> (m1, Some e)
           | None \<Rightarrow>
               (m1\<lparr>active_widgets :=
                     (active_widgets m)[i := widget_info\<lparr>wi_desktop_widget := Some a\<rparr>],
                   desktop_widgets := desktop_widgets m @ [a]\<rparr>, None))"

text \<open>\<open>create_widget\<close>; \<open>widget_type\<close> is the value of \<open>widget_type_var\<close>.\<close>

definition create_widget :: "toolkit \<Rightarrow> string \<Rightarrow> manager \<Rightarrow> manager \<times> report" where
  "create_widget tk widget_type m =
     (case map_of widget_types widget_type of
        None \<Rightarrow> (m, Raised (KeyError widget_type))
      | Some widget_class \<Rightarrow>
          let widget_info =
                \<lparr>wi_type = widget_type,
                 wi_instance = BaseWidget_init widget_class JNull,
                 wi_name = JStr (widget_type @ '' #'' @
                                 str_of_nat (length (active_widgets m) + 1)),
                 wi_desktop_widget = None\<rparr>;
              m1 = m\<lparr>active_widgets := active_widgets m @ [widget_info]\<rparr>
          in case pin_widget_to_desktop tk (length (active_widgets m)) m1 of
               (m2, Some e) \<Rightarrow> (m2, Raised e)
             | (m2, None) \<Rightarrow> (m2, Success_toast))"

text \<open>
  \<open>pin_selected_widget\<close> and \<open>unpin_selected_widget\<close>; \<open>selection\<close> is the first index
  of \<open>curselection()\<close>, if any.
\<close>

definition pin_selected_widget :: "toolkit \<Rightarrow> nat option \<Rightarrow> manager \<Rightarrow> manager \<times> report" where
  "pin_selected_widget tk selection m =
     (case selection of
        None \<Rightarrow> (m, Warning_toast)
      | Some index \<Rightarrow>
          if index \<ge> length (active_widgets m) then (m, Raised IndexError)
          else if info_pinned m (active_widgets m ! index) then (m, Info_toast)
          else (case pin_widget_to_desktop tk index m of
                  (m', Some e) \<Rightarrow> (m', Raised e)
                | (m', None) \<Rightarrow> (m', Success_toast)))"

definition unpin_selected_widget :: "nat option \<Rightarrow> manager \<Rightarrow> manager \<times> report" where
  "unpin_selected_widget selection m =
     (case selection of
        None \<Rightarrow> (m, Warning_toast)
      | Some index \<Rightarrow>
          if index \<ge> length (active_widgets m) then (m, Raised IndexError)
          else
            let widget_info = active_widgets m ! index in
            case wi_desktop_widget widget_info of
              None \<Rightarrow> (m, Info_toast)
            | Some a \<Rightarrow>
                if is_pinned (heap m ! a) then
                  let m1 = m\<lparr>heap := (heap m)[a := unpin_from_desktop (heap m ! a)]\<rparr> in
                  if a \<in> set (desktop_widgets m) then
                    (m1\<lparr>desktop_widgets := remove1 a (desktop_widgets m),
                        active_widgets :=
                          (active_widgets m)[index := widget_info\<lparr>wi_desktop_widget := None\<rparr>]\<rparr>,
                     Success_toast)
                  else (m1, Raised ValueError)
                else (m, Info_toast))"

section \<open>Saving and loading the layout\<close>

text \<open>
  The layout file \<open>modern_widget_config.json\<close> is absent, present but not readable as
  JSON (\<open>open\<close> or \<open>json.load\<close> raises), or holds a JSON value.
\<close>

datatype file_state = Missing | Unreadable | Document json

text \<open>How writing the file goes: it is written, \<open>open\<close> raises, or \<open>json.dump\<close> raises
  after \<open>open\<close> has truncated the file.\<close>

datatype write_result = Written | Open_fails | Dump_fails

definition save_widget :: "manager \<Rightarrow> widget_info \<Rightarrow> json" where
  "save_widget m widget_info = JObj
     ([(''type'', JStr (wi_type widget_info)),
       (''name'', wi_name widget_info),
       (''config'', config (wi_instance widget_info))] @
      (if info_pinned m widget_info then
         [(''desktop_x'', dw_x (heap m ! the (wi_desktop_widget widget_info))),
          (''desktop_y'', dw_y (heap m ! the (wi_desktop_widget widget_info))),
          (''pinned'', JBool True)]
       else []))"

definition config_data_of :: "manager \<Rightarrow> json" where
  "config_data_of m = JObj
     [(''widgets'', JList (map (save_widget m) (active_widgets m))),
      (''desktop_positions'', JObj [])]"

definition save_config :: "write_result \<Rightarrow> manager \<Rightarrow> file_state \<Rightarrow> file_state \<times> report" where
  "save_config w m file =
     (case w of
        Written \<Rightarrow> (Document (config_data_of m), Success_toast)
      | Open_fails \<Rightarrow> (file, Error_toast)
      | Dump_fails \<Rightarrow> (Unreadable, Error_toast))"

text \<open>\<open>widget_type in self.widget_types\<close> and \<open>self.widget_types[widget_type]\<close> for a
  hashable \<open>widget_type\<close>: only a string can equal a key.\<close>

fun widget_types_get :: "json \<Rightarrow> (string \<times> widget_class) option" where
  "widget_types_get (JStr s) = map_option (Pair s) (map_of widget_types s)"
| "widget_types_get _ = None"

text \<open>The first loop of \<open>load_config\<close>: every pinned widget is unpinned.\<close>

definition unpin_all :: "widget_info list \<Rightarrow> desktop_widget list \<Rightarrow> desktop_widget list" where
  "unpin_all ws h =
     foldl (\<lambda>h widget_info.
              case wi_desktop_widget widget_info of
                None \<Rightarrow> h
              | Some a \<Rightarrow> if is_pinned (h ! a) then h[a := unpin_from_desktop (h ! a)] else h)
       h ws"

text \<open>The part of the loop body under \<open>if widget_data.get('pinned', False)\<close>, for the
  \<open>widget_info\<close> just appended at position \<open>i\<close>.\<close>

definition restore_pinning :: "toolkit \<Rightarrow> json \<Rightarrow> nat \<Rightarrow> manager \<Rightarrow> manager \<times> exn option" where
  "restore_pinning tk widget_data i m =
     (case py_get widget_data ''desktop_x'' (JInt 100) of
        Inl e \<Rightarrow> (m, Some e)
      | Inr x \<Rightarrow>
     (case py_get widget_data ''desktop_y'' (JInt 100) of
        Inl e \<Rightarrow> (m, Some e)
      | Inr y \<Rightarrow>
          let widget_info = active_widgets m ! i;
              a = length (heap m);
              (dw, err) = pin_to_desktop tk (wi_instance widget_info) (DesktopWidget x y);
              m1 = m\<lparr>heap := heap m @ [dw]\<rparr>
          in case err of
               Some e \<Rightarrow> (m1, Some e)
             | None \<Rightarrow>
                 (m1\<lparr>active_widgets :=
                       (active_widgets m)[i := widget_info\<lparr>wi_desktop_widget := Some a\<rparr>],
                     desktop_widgets := desktop_widgets m @ [a]\<rparr>, None)))"

text \<open>One pass of the loop \<open>for widget_data in config_data.get('widgets', [])\<close>.\<close>

definition load_widget :: "toolkit \<Rightarrow> json \<Rightarrow> manager \<Rightarrow> manager \<times> exn option" where
  "load_widget tk widget_data m =
     (case py_getitem widget_data ''type'' of
        Inl e \<Rightarrow> (m, Some e)
      | Inr widget_type \<Rightarrow>
          if \<not> py_hashable widget_type then (m, Some TypeError)
          else
            case widget_types_get widget_type of
              None \<Rightarrow> (m, None)
            | Some (type_name, widget_class) \<Rightarrow>
            (case py_getitem widget_data ''config'' of
               Inl e \<Rightarrow> (m, Some e)
             | Inr cfg \<Rightarrow>
            (case py_getitem widget_data ''name'' of
               Inl e \<Rightarrow> (m, Some e)
             | Inr nm \<Rightarrow>
                 let widget_info =
                       \<lparr>wi_type = type_name,
                        wi_instance = BaseWidget_init widget_class cfg,
                        wi_name = nm,
                        wi_desktop_widget = None\<rparr>;
                     m1 = m\<lparr>active_widgets := active_widgets m @ [widget_info]\<rparr>
                 in case py_get widget_data ''pinned'' (JBool False) of
                      Inl e \<Rightarrow> (m1, Some e)
                    | Inr p \<Rightarrow>
                        if py_bool p
                        then restore_pinning tk widget_data (length (active_widgets m)) m1
                        else (m1, None))))"

fun load_widgets :: "toolkit \<Rightarrow> json list \<Rightarrow> manager \<Rightarrow> manager \<times> exn option" where
  "load_widgets tk [] m = (m, None)"
| "load_widgets tk (widget_data # rest) m =
     (case load_widget tk widget_data m of
        (m', Some e) \<Rightarrow> (m', Some e)
      | (m', None) \<Rightarrow> load_widgets tk rest m')"

definition load_config :: "toolkit \<Rightarrow> file_state \<Rightarrow> manager \<Rightarrow> manager \<times> report" where
  "load_config tk file m =
     (case file of
        Missing \<Rightarrow> (m, Silent)
      | Unreadable \<Rightarrow> (m, Error_toast)
      | Document config_data \<Rightarrow>
          let m1 = \<lparr>active_widgets = [], desktop_widgets = [],
                    heap = unpin_all (active_widgets m) (heap m)\<rparr>
          in case py_get config_data ''widgets'' (JList []) of
               Inl e \<Rightarrow> (m1, Error_toast)
             | Inr ws \<Rightarrow>
            (case py_iter ws of
               Inl e \<Rightarrow> (m1, Error_toast)
             | Inr widget_datas \<Rightarrow>
            (case load_widgets tk widget_datas m1 of
               (m2, Some e) \<Rightarrow> (m2, Error_toast)
             | (m2, None) \<Rightarrow> (m2, Success_toast))))"


text \<open>
  One pass of the loading loop, split in two for the proofs: \<open>plan_widget\<close> reads the
  record and the toolkit and decides what the pass does (nothing, append an unpinned
  widget, or append a widget with a new \<open>DesktopWidget\<close>), each with the exception
  that ends the pass, if any; \<open>apply_step\<close> does it to a manager. \<open>load_widget\<close> is
  their composition (\<open>load_widget_plan\<close>). \<open>unpin_step\<close> is one pass of the loop that
  unpins the current widgets.
\<close>

datatype load_step =
    Step_skip "exn option"
  | Step_append string widget_instance json "exn option"
  | Step_pin string widget_instance json desktop_widget "exn option"

definition plan_pinning :: "toolkit \<Rightarrow> json \<Rightarrow> string \<Rightarrow> widget_instance \<Rightarrow> json \<Rightarrow> load_step" where
  "plan_pinning tk widget_data type_name widget_instance nm =
     (case py_get widget_data ''desktop_x'' (JInt 100) of
        Inl e \<Rightarrow> Step_append type_name widget_instance nm (Some e)
      | Inr x \<Rightarrow>
     (case py_get widget_data ''desktop_y'' (JInt 100) of
        Inl e \<Rightarrow> Step_append type_name widget_instance nm (Some e)
      | Inr y \<Rightarrow>
          Step_pin type_name widget_instance nm
            (fst (pin_to_desktop tk widget_instance (DesktopWidget x y)))
            (snd (pin_to_desktop tk widget_instance (DesktopWidget x y)))))"

definition plan_widget :: "toolkit \<Rightarrow> json \<Rightarrow> load_step" where
  "plan_widget tk widget_data =
     (case py_getitem widget_data ''type'' of
        Inl e \<Rightarrow> Step_skip (Some e)
      | Inr widget_type \<Rightarrow>
          if \<not> py_hashable widget_type then Step_skip (Some TypeError)
          else
            case widget_types_get widget_type of
              None \<Rightarrow> Step_skip None
            | Some (type_name, widget_class) \<Rightarrow>
            (case py_getitem widget_data ''config'' of
               Inl e \<Rightarrow> Step_skip (Some e)
             | Inr cfg \<Rightarrow>
            (case py_getitem widget_data ''name'' of
               Inl e \<Rightarrow> Step_skip (Some e)
             | Inr nm \<Rightarrow>
                 (case py_get widget_data ''pinned'' (JBool False) of
                    Inl e \<Rightarrow> Step_append type_name (BaseWidget_init widget_class cfg) nm (Some e)
                  | Inr p \<Rightarrow>
                      if py_bool p
                      then plan_pinning tk widget_data type_name
                             (BaseWidget_init widget_class cfg) nm
                      else Step_append type_name (BaseWidget_init widget_class cfg) nm None))))"

fun apply_step :: "load_step \<Rightarrow> manager \<Rightarrow> manager \<times> exn option" where
  "apply_step (Step_skip e) m = (m, e)"
| "apply_step (Step_append type_name widget_instance nm e) m =
     (m\<lparr>active_widgets := active_widgets m @
          [\<lparr>wi_type = type_name, wi_instance = widget_instance, wi_name = nm,
            wi_desktop_widget = None\<rparr>]\<rparr>, e)"
| "apply_step (Step_pin type_name widget_instance nm dw (Some e)) m =
     (m\<lparr>active_widgets := active_widgets m @
          [\<lparr>wi_type = type_name, wi_instance = widget_instance, wi_name = nm,
            wi_desktop_widget = None\<rparr>],
        heap := heap m @ [dw]\<rparr>, Some e)"
| "apply_step (Step_pin type_name widget_instance nm dw None) m =
     (m\<lparr>active_widgets := active_widgets m @
          [\<lparr>wi_type = type_name, wi_instance = widget_instance, wi_name = nm,
            wi_desktop_widget = Some (length (heap m))\<rparr>],
        desktop_widgets := desktop_widgets m @ [length (heap m)],
        heap := heap m @ [dw]\<rparr>, None)"

definition unpin_step :: "desktop_widget list \<Rightarrow> widget_info \<Rightarrow> desktop_widget list" where
  "unpin_step h widget_info =
     (case wi_desktop_widget widget_info of
        None \<Rightarrow> h
      | Some a \<Rightarrow> if is_pinned (h ! a) then h[a := unpin_from_desktop (h ! a)] else h)"

section \<open>What is observed of a manager, and what a saved record stands for\<close>

text \<open>
  Of each widget the user sees its type and class, its name, its configuration, whether it
  is pinned and, when pinned, its position. \<open>observe\<close> lists this for the widgets of a
  manager, in the order of \<open>active_widgets\<close>.

  \<open>heap_ok\<close> says that every reference held by a \<open>widget_info\<close> points to an
  allocated object. \<open>record_instance\<close> reads off a record of the layout file the
  widget it describes, when its type is a known one and the keys \<open>type\<close>,
  \<open>config\<close> and \<open>name\<close> are there. \<open>pin_succeeds\<close> says that pinning a widget of
  that class and configuration at that position raises nothing, and \<open>loadable\<close> that
  one pass of the loading loop over the record raises nothing.
\<close>

definition position_of :: "manager \<Rightarrow> widget_info \<Rightarrow> json \<times> json" where
  "position_of m widget_info =
     (dw_x (heap m ! the (wi_desktop_widget widget_info)),
      dw_y (heap m ! the (wi_desktop_widget widget_info)))"

type_synonym observation =
  "string \<times> widget_class \<times> json \<times> json \<times> bool \<times> (json \<times> json) option"

definition observe_widget :: "manager \<Rightarrow> widget_info \<Rightarrow> observation" where
  "observe_widget m widget_info =
     (wi_type widget_info, inst_class (wi_instance widget_info), wi_name widget_info,
      config (wi_instance widget_info),
      info_pinned m widget_info,
      if info_pinned m widget_info then Some (position_of m widget_info) else None)"

definition observe :: "manager \<Rightarrow> observation list" where
  "observe m = map (observe_widget m) (active_widgets m)"

definition heap_ok :: "manager \<Rightarrow> bool" where
  "heap_ok m = list_all (\<lambda>widget_info.
       case wi_desktop_widget widget_info of None \<Rightarrow> True | Some a \<Rightarrow> a < length (heap m))
     (active_widgets m)"

definition recognized :: "json \<Rightarrow> bool" where
  "recognized widget_data =
     (case py_getitem widget_data ''type'' of
        Inl e \<Rightarrow> False
      | Inr widget_type \<Rightarrow> widget_types_get widget_type \<noteq> None)"

fun record_instance :: "json \<Rightarrow> observation option" where
  "record_instance (JObj kvs) =
     (case map_of kvs ''type'' of
        None \<Rightarrow> None
      | Some widget_type \<Rightarrow>
     (case widget_types_get widget_type of
        None \<Rightarrow> None
      | Some (type_name, widget_class) \<Rightarrow>
     (case map_of kvs ''config'' of
        None \<Rightarrow> None
      | Some cfg \<Rightarrow>
     (case map_of kvs ''name'' of
        None \<Rightarrow> None
      | Some nm \<Rightarrow>
          Some (type_name, widget_class, nm,
                (if py_bool cfg then cfg else get_default_config widget_class),
                py_bool (case map_of kvs ''pinned'' of None \<Rightarrow> JBool False | Some p \<Rightarrow> p),
                (if py_bool (case map_of kvs ''pinned'' of None \<Rightarrow> JBool False | Some p \<Rightarrow> p)
                 then Some (case map_of kvs ''desktop_x'' of None \<Rightarrow> JInt 100 | Some x \<Rightarrow> x,
                            case map_of kvs ''desktop_y'' of None \<Rightarrow> JInt 100 | Some y \<Rightarrow> y)
                 else None))))))"
| "record_instance _ = None"

definition pin_succeeds :: "toolkit \<Rightarrow> widget_class \<Rightarrow> json \<Rightarrow> json \<times> json \<Rightarrow> bool" where
  "pin_succeeds tk cls cfg pos =
     (case py_get cfg ''opacity'' (JFloat 0.9) of
        Inl e \<Rightarrow> False
      | Inr alpha \<Rightarrow> tk cls cfg alpha (fst pos) (snd pos))"

definition loadable :: "toolkit \<Rightarrow> json \<Rightarrow> bool" where
  "loadable tk widget_data =
     (case py_getitem widget_data ''type'' of
        Inl e \<Rightarrow> False
      | Inr widget_type \<Rightarrow>
          py_hashable widget_type \<and>
          (case widget_types_get widget_type of
             None \<Rightarrow> True
           | Some tc \<Rightarrow>
               (case record_instance widget_data of
                  None \<Rightarrow> False
                | Some (type_name, cls, nm, cfg, pinned, pos) \<Rightarrow>
                    (case pos of None \<Rightarrow> True | Some p \<Rightarrow> pin_succeeds tk cls cfg p))))"

text \<open>
  \<open>wf_widget\<close> holds of the widgets of a manager that the operations build: the type
  name is a key of \<open>widget_types\<close> and maps to the class of the instance, the
  configuration is a true value (\<open>BaseWidget.__init__\<close> replaces any other by the
  default one), and a pinned widget is one that the toolkit pins at its position.
\<close>

definition wf_widget :: "toolkit \<Rightarrow> manager \<Rightarrow> widget_info \<Rightarrow> bool" where
  "wf_widget tk m widget_info \<longleftrightarrow>
     map_of widget_types (wi_type widget_info) = Some (inst_class (wi_instance widget_info)) \<and>
     py_bool (config (wi_instance widget_info)) \<and>
     (if info_pinned m widget_info
      then pin_succeeds tk (inst_class (wi_instance widget_info))
             (config (wi_instance widget_info)) (position_of m widget_info)
      else True)"

text \<open>A manager is well formed when its references are allocated and its widgets are
  well formed.\<close>

definition wf_manager :: "toolkit \<Rightarrow> manager \<Rightarrow> bool" where
  "wf_manager tk m \<longleftrightarrow> heap_ok m \<and> list_all (wf_widget tk m) (active_widgets m)"

section \<open>Sequences of user commands\<close>

text \<open>
  \<open>tk_always\<close> is a toolkit whose calls never fail. A \<open>command\<close> is one press of
  Create Widget (with the selected widget type), Pin Selected or Unpin Selected (with
  the selection of the list box); \<open>run\<close> performs a list of them, going on after a
  command that raised, as the event loop does. \<open>pinned_positions\<close> lists the
  positions of the widgets that are pinned.

  \<open>stagger k\<close> is the position that \<open>pin_widget_to_desktop\<close> computes when
  \<open>k\<close> objects are in \<open>desktop_widgets\<close>. \<open>stagger_inv\<close> is the invariant of the
  runs without Unpin: references are allocated, and the pinned positions are distinct
  and are \<open>stagger k\<close> for \<open>k\<close> below the length of \<open>desktop_widgets\<close>.
\<close>

definition tk_always :: toolkit where
  "tk_always cls cfg alpha x y = True"

datatype command = Create string | Pin "nat option" | Unpin "nat option"

fun exec :: "toolkit \<Rightarrow> command \<Rightarrow> manager \<Rightarrow> manager \<times> report" where
  "exec tk (Create widget_type) m = create_widget tk widget_type m"
| "exec tk (Pin selection) m = pin_selected_widget tk selection m"
| "exec tk (Unpin selection) m = unpin_selected_widget selection m"

definition run :: "toolkit \<Rightarrow> command list \<Rightarrow> manager \<Rightarrow> manager" where
  "run tk cmds m = foldl (\<lambda>m c. fst (exec tk c m)) m cmds"


definition pinned_positions :: "manager \<Rightarrow> (json \<times> json) list" where
  "pinned_positions m = map (position_of m) (filter (info_pinned m) (active_widgets m))"

definition stagger :: "nat \<Rightarrow> json \<times> json" where
  "stagger k = (JInt (100 + int k * 30), JInt (100 + int k * 30))"


section \<open>Example states\<close>

text \<open>A timer right after \<open>create_widget\<close>, and one in the middle of a countdown.\<close>

definition timer_fresh :: timer where
  "timer_fresh =
     \<lparr>remaining_time = 0, timer_active = False, time_display = ''00:00'',
      winfo_exists = True, dialogs = []\<rparr>"

definition timer_running :: timer where
  "timer_running =
     \<lparr>remaining_time = 90, timer_active = True, time_display = ''01:31'',
      winfo_exists = True, dialogs = []\<rparr>"

text \<open>A to-do widget right after \<open>create_widget\<close>, and one holding two tasks.\<close>

definition todo_created :: todo where
  "todo_created = \<lparr>tasks = [], entry = [], redraws = 1\<rparr>"

definition todo_two :: todo where
  "todo_two =
     \<lparr>tasks = [\<lparr>task_text = ''milk'', completed = False\<rparr>,
               \<lparr>task_text = ''tea'', completed = True\<rparr>],
      entry = [], redraws = 4\<rparr>"


text \<open>
  Managers reached by user commands: one pinned clock; a clock that was unpinned and a
  pinned timer; a pinned clock, an unpinned timer and a pinned to-do list.
  \<open>doc_missing_config\<close> is a layout file that parses but whose only record lacks the
  keys \<open>config\<close> and \<open>name\<close>. \<open>records_with_unknown\<close> are three records, the
  second of a type the manager does not know, the third with an empty configuration.
\<close>

definition manager_one :: manager where
  "manager_one = run tk_always [Create ''Clock''] manager_init"

definition manager_two :: manager where
  "manager_two = run tk_always [Create ''Clock'', Create ''Timer'', Unpin (Some 0)] manager_init"

definition manager_three :: manager where
  "manager_three =
     run tk_always [Create ''Clock'', Create ''Timer'', Create ''Todo List'', Unpin (Some 1)]
       manager_init"

definition doc_missing_config :: json where
  "doc_missing_config = JObj [(''widgets'', JList [JObj [(''type'', JStr ''Clock'')]])]"

definition records_with_unknown :: "json list" where
  "records_with_unknown =
     [JObj [(''type'', JStr ''Clock''), (''name'', JStr ''Clock #1''),
            (''config'', JObj [(''width'', JInt 280)])],
      JObj [(''type'', JStr ''Calendar''), (''name'', JStr ''Calendar #2''),
            (''config'', JObj [(''width'', JInt 100)]),
            (''desktop_x'', JInt 10), (''desktop_y'', JInt 20), (''pinned'', JBool True)],
      JObj [(''type'', JStr ''Timer''), (''name'', JStr ''Timer #3''),
            (''config'', JObj []),
            (''desktop_x'', JInt 300), (''desktop_y'', JInt 200), (''pinned'', JBool True)]]"

text \<open>
  \<open>doc_partial\<close> is a layout file whose first record is complete and whose second
  lacks \<open>config\<close>. \<open>doc_odd_record\<close> holds one record whose configuration is the
  number 5 and whose name is \<open>null\<close>.
\<close>

definition doc_partial :: json where
  "doc_partial = JObj [(''widgets'', JList
     [JObj [(''type'', JStr ''Clock''), (''name'', JStr ''Clock #1''),
            (''config'', JObj [(''width'', JInt 280)])],
      JObj [(''type'', JStr ''Timer'')]])]"

definition doc_odd_record :: json where
  "doc_odd_record = JObj [(''widgets'', JList
     [JObj [(''type'', JStr ''Clock''), (''name'', JNull), (''config'', JInt 5)]])]"

section \<open>Strings and integers: basic facts\<close>

lemma int_strip_subset: "set (int_strip s) \<subseteq> set s"
proof -
  have "set (int_strip s) = set (dropWhile is_int_space (rev (dropWhile is_int_space s)))"
    by (simp add: int_strip_def)
  also have "\<dots> \<subseteq> set (rev (dropWhile is_int_space s))"
    using set_dropWhileD by fastforce
  also have "\<dots> \<subseteq> set s"
    using set_dropWhileD by fastforce
  finally show ?thesis .
qed

lemma py_nat_no_digit: "\<forall>c \<in> set s. \<not> is_digit c \<Longrightarrow> py_nat s = None"
  by (cases s) (simp_all add: py_nat_def)

text \<open>A text without any decimal digit is never a number for \<open>int\<close>.\<close>

lemma py_int_no_digit:
  assumes "\<forall>c \<in> set s. \<not> is_digit c"
  shows "py_int s = None"
proof (cases "int_strip s")
  case Nil
  then show ?thesis by (simp add: py_int_def)
next
  case (Cons c cs)
  have "\<forall>c \<in> set (c # cs). \<not> is_digit c"
    using assms int_strip_subset[of s] Cons by auto
  then have "py_nat (c # cs) = None" and "py_nat cs = None"
    by (simp_all add: py_nat_no_digit)
  then show ?thesis using Cons by (simp add: py_int_def)
qed

lemmas py_int_eval = py_int_def py_nat_def int_strip_def is_int_space_def is_digit_def
  digit_val_def int_max_str_digits_def

text \<open>White space that \<open>int\<close> accepts around a number, and a separator that it does not.\<close>

lemma py_int_blanks: "py_int [CHR 0x09, CHR ''5'', CHR 0xA0] = Some 5"
  by (simp add: py_int_eval)

lemma py_int_separator: "py_int [CHR 0x1C, CHR ''5''] = None \<and> py_int [CHR ''5'', CHR 0x1F] = None"
  by (simp add: py_int_eval)

text \<open>A text with more than 4300 digits is refused, whatever else it holds.\<close>

lemma int_space_not_digit: "is_int_space c \<Longrightarrow> \<not> is_digit c"
  by (auto simp: is_int_space_def is_digit_def)

lemma filter_digit_dropWhile:
  "filter is_digit (dropWhile is_int_space s) = filter is_digit s"
  by (induction s) (simp_all add: int_space_not_digit)

lemma filter_digit_int_strip: "filter is_digit (int_strip s) = filter is_digit s"
proof -
  have "filter is_digit (int_strip s) =
        rev (filter is_digit (dropWhile is_int_space (rev (dropWhile is_int_space s))))"
    by (simp add: int_strip_def rev_filter)
  also have "\<dots> = rev (filter is_digit (rev (dropWhile is_int_space s)))"
    by (simp only: filter_digit_dropWhile)
  also have "\<dots> = filter is_digit (dropWhile is_int_space s)"
    by (simp add: rev_filter)
  finally show ?thesis
    by (simp only: filter_digit_dropWhile)
qed

lemma py_nat_too_long: "int_max_str_digits < length (filter is_digit s) \<Longrightarrow> py_nat s = None"
  by (cases s) (auto simp: py_nat_def)

lemma py_int_too_long:
  assumes "int_max_str_digits < length (filter is_digit s)"
  shows "py_int s = None"
proof (cases "int_strip s")
  case Nil
  then show ?thesis by (simp add: py_int_def)
next
  case (Cons c cs)
  have l: "int_max_str_digits < length (filter is_digit (c # cs))"
    using assms filter_digit_int_strip[of s] Cons by simp
  have whole: "py_nat (c # cs) = None"
    using l by (rule py_nat_too_long)
  have sign: "py_nat cs = None" if "c = CHR ''-'' \<or> c = CHR ''+''"
  proof -
    have "\<not> is_digit c"
      using that by (auto simp: is_digit_def)
    then have "int_max_str_digits < length (filter is_digit cs)"
      using l by simp
    then show ?thesis by (rule py_nat_too_long)
  qed
  show ?thesis
    using Cons whole sign by (simp add: py_int_def)
qed

lemma py_int_0: "py_int ''0'' = Some 0"
  by (simp add: py_int_eval)

lemma py_int_1: "py_int ''1'' = Some 1"
  by (simp add: py_int_eval)

lemma py_int_2: "py_int ''2'' = Some 2"
  by (simp add: py_int_eval)

lemma py_int_minus_5: "py_int ''-5'' = Some (- 5)"
  by (simp add: py_int_eval)

lemma py_int_abc: "py_int ''abc'' = None"
  by (simp add: py_int_eval)

section \<open>To-do list\<close>

lemma tasks_type_and_add:
  "strip s \<noteq> [] \<Longrightarrow>
   tasks (type_and_add t s) = tasks t @ [\<lparr>task_text = strip s, completed = False\<rparr>]"
  by (simp add: type_and_add_def add_task_def todo_update_content_def Let_def)

lemma tasks_foldl_add:
  "\<forall>s \<in> set ss. strip s \<noteq> [] \<Longrightarrow>
   tasks (foldl type_and_add t ss) =
     tasks t @ map (\<lambda>s. \<lparr>task_text = strip s, completed = False\<rparr>) ss"
  by (induction ss arbitrary: t) (simp_all add: tasks_type_and_add)

lemma tasks_delete:
  "0 \<le> i \<Longrightarrow> i < int (length (tasks t)) \<Longrightarrow>
   tasks (delete_task i t) = take (nat i) (tasks t) @ drop (Suc (nat i)) (tasks t)"
  by (simp add: delete_task_def todo_update_content_def)

lemma tasks_toggle:
  "0 \<le> i \<Longrightarrow> i < int (length (tasks t)) \<Longrightarrow>
   tasks (toggle_task i t) =
     (tasks t)[nat i := (tasks t ! nat i)\<lparr>completed := \<not> completed (tasks t ! nat i)\<rparr>]"
  by (simp add: toggle_task_def todo_update_content_def)

lemma toggle_twice:
  assumes "0 \<le> j" and "j < int (length (tasks t))"
  shows "tasks (toggle_task j (toggle_task j t)) = tasks t"
proof -
  have l: "length (tasks (toggle_task j t)) = length (tasks t)"
    using assms by (simp add: tasks_toggle)
  have n: "nat j < length (tasks t)"
    using assms by simp
  show ?thesis
    using assms l n by (simp add: tasks_toggle list_update_same_conv)
qed

lemma toggle_flips:
  assumes "0 \<le> j" and "j < int (length (tasks t))"
  shows "completed (tasks (toggle_task j t) ! nat j) = (\<not> completed (tasks t ! nat j))"
proof -
  have "nat j < length (tasks t)"
    using assms by simp
  then show ?thesis
    using assms by (simp add: tasks_toggle)
qed

text \<open>
  C9. Starting from a new to-do widget, typing and adding \<open>k\<close> texts that are not empty
  once stripped gives \<open>k\<close> tasks, in the order typed. Deleting the task at an index
  \<open>i\<close> with \<open>0 \<le> i < k\<close> leaves the \<open>k - 1\<close> other tasks in their order, only the
  one at \<open>i\<close> gone. On any list, toggling the task at a valid index flips its completed
  flag, and toggling it twice gives back the list of tasks as it was.
\<close>

theorem todo_add_delete_toggle:
  assumes "\<forall>s \<in> set ss. strip s \<noteq> []" and "tasks t0 = []"
    and "0 \<le> i" and "i < int (length ss)"
    and "0 \<le> j" and "j < int (length (tasks u))"
  shows "tasks (foldl type_and_add t0 ss) =
           map (\<lambda>s. \<lparr>task_text = strip s, completed = False\<rparr>) ss
    \<and> tasks (delete_task i (foldl type_and_add t0 ss)) =
           map (\<lambda>s. \<lparr>task_text = strip s, completed = False\<rparr>)
             (take (nat i) ss @ drop (Suc (nat i)) ss)
    \<and> length (tasks (delete_task i (foldl type_and_add t0 ss))) = length ss - 1
    \<and> completed (tasks (toggle_task j u) ! nat j) = (\<not> completed (tasks u ! nat j))
    \<and> tasks (toggle_task j (toggle_task j u)) = tasks u"
proof -
  let ?t = "foldl type_and_add t0 ss"
  let ?mk = "\<lambda>s. \<lparr>task_text = strip s, completed = False\<rparr>"
  have a: "tasks ?t = map ?mk ss"
    using assms(1,2) by (simp add: tasks_foldl_add)
  have r: "i < int (length (tasks ?t))"
    using a assms(4) by simp
  have d: "tasks (delete_task i ?t) = map ?mk (take (nat i) ss @ drop (Suc (nat i)) ss)"
    using tasks_delete[OF assms(3) r] a by (simp add: take_map drop_map)
  have n: "nat i < length ss"
    using assms(3,4) by simp
  have l: "length (tasks (delete_task i ?t)) = length ss - 1"
    using n by (simp add: d)
  show ?thesis
    using a d l toggle_twice[OF assms(5,6)] toggle_flips[OF assms(5,6)] by simp
qed

theorem todo_add_delete_toggle_witness:
  "tasks (foldl type_and_add todo_created [''milk'', '' eggs '', ''tea'']) =
     [\<lparr>task_text = ''milk'', completed = False\<rparr>,
      \<lparr>task_text = ''eggs'', completed = False\<rparr>,
      \<lparr>task_text = ''tea'', completed = False\<rparr>]
   \<and> tasks (delete_task 1 (foldl type_and_add todo_created [''milk'', '' eggs '', ''tea''])) =
     [\<lparr>task_text = ''milk'', completed = False\<rparr>,
      \<lparr>task_text = ''tea'', completed = False\<rparr>]
   \<and> completed (tasks (toggle_task 1 todo_two) ! 1) = False
   \<and> tasks (toggle_task 1 (toggle_task 1 todo_two)) = tasks todo_two"
  using todo_add_delete_toggle
          [of "[''milk'', '' eggs '', ''tea'']" todo_created 1 1 todo_two]
  by (simp add: strip_def is_space_def todo_created_def todo_two_def)

text \<open>
  C10. For an index outside \<open>0 \<le> index < len(tasks)\<close>, negative ones included,
  \<open>toggle_task\<close> and \<open>delete_task\<close> return the widget exactly as it was: the tasks,
  their order, the entry field, and no redraw is made. Both are total functions, so no
  error is raised.
\<close>

theorem todo_out_of_range_noop:
  "\<not> (0 \<le> index \<and> index < int (length (tasks t))) \<Longrightarrow>
   toggle_task index t = t \<and> delete_task index t = t"
  by (auto simp: toggle_task_def delete_task_def)

theorem todo_out_of_range_noop_witness:
  "\<not> (0 \<le> (- 1 :: int) \<and> - 1 < int (length (tasks todo_two)))
   \<and> \<not> (0 \<le> (2 :: int) \<and> 2 < int (length (tasks todo_two)))
   \<and> toggle_task (- 1) todo_two = todo_two \<and> delete_task (- 1) todo_two = todo_two
   \<and> toggle_task 2 todo_two = todo_two \<and> delete_task 2 todo_two = todo_two"
  using todo_out_of_range_noop [of "- 1" todo_two] todo_out_of_range_noop [of 2 todo_two]
  by (simp add: todo_two_def)

section \<open>Timer\<close>

text \<open>
  C2, as the code has it. When \<open>int\<close> rejects the text of the minutes field, \<open>start_timer\<close>
  leaves \<open>remaining_time\<close> and \<open>timer_active\<close> as they were and shows the error box.
  Every text that \<open>int\<close> accepts starts the timer, whatever the sign of the number:
  \<open>remaining_time\<close> becomes \<open>minutes * 60\<close>, \<open>timer_active\<close> becomes true and no box
  is shown.
\<close>

theorem start_timer_validation:
  "(py_int s = None \<longrightarrow>
      remaining_time (start_timer s t) = remaining_time t \<and>
      timer_active (start_timer s t) = timer_active t \<and>
      dialogs (start_timer s t) =
        dialogs t @ [ShowError ''Error'' ''Please enter a valid number of minutes''])
   \<and> (\<forall>m. py_int s = Some m \<longrightarrow>
      remaining_time (start_timer s t) = m * 60 \<and>
      timer_active (start_timer s t) \<and>
      dialogs (start_timer s t) = dialogs t)"
  by (simp add: start_timer_def)

theorem start_timer_validation_witness:
  "py_int ''abc'' = None
   \<and> remaining_time (start_timer ''abc'' timer_running) = 90
   \<and> timer_active (start_timer ''abc'' timer_running)
   \<and> dialogs (start_timer ''abc'' timer_running) =
       [ShowError ''Error'' ''Please enter a valid number of minutes'']
   \<and> py_int [CHR 0x1C, CHR ''5''] = None
   \<and> remaining_time (start_timer [CHR 0x1C, CHR ''5''] timer_fresh) = 0
   \<and> dialogs (start_timer [CHR 0x1C, CHR ''5''] timer_fresh) =
       [ShowError ''Error'' ''Please enter a valid number of minutes'']
   \<and> py_int ''2'' = Some 2
   \<and> remaining_time (start_timer ''2'' timer_fresh) = 120
   \<and> timer_active (start_timer ''2'' timer_fresh)
   \<and> dialogs (start_timer ''2'' timer_fresh) = []"
  using start_timer_validation [of "''abc''" timer_running]
    start_timer_validation [of "[CHR 0x1C, CHR ''5'']" timer_fresh]
    start_timer_validation [of "''2''" timer_fresh]
  by (simp add: py_int_abc py_int_2 py_int_separator timer_running_def timer_fresh_def)

text \<open>
  C2 as stated fails for the inputs \<open>0\<close> and \<open>-5\<close>: the running countdown of 90 seconds
  is overwritten with 0, an idle timer is switched on with \<open>-300\<close> seconds remaining,
  and in neither case is an error box shown.
\<close>

theorem start_timer_nonpositive_counterexample:
  "remaining_time (start_timer ''0'' timer_running) \<noteq> remaining_time timer_running
   \<and> dialogs (start_timer ''0'' timer_running) = []
   \<and> remaining_time (start_timer ''-5'' timer_fresh) \<noteq> remaining_time timer_fresh
   \<and> timer_active (start_timer ''-5'' timer_fresh) \<noteq> timer_active timer_fresh
   \<and> dialogs (start_timer ''-5'' timer_fresh) = []"
  by (simp add: start_timer_def py_int_0 py_int_minus_5 timer_running_def timer_fresh_def)

lemma tick_running:
  "winfo_exists t \<Longrightarrow> timer_active t \<Longrightarrow> 0 < remaining_time t \<Longrightarrow>
   remaining_time (update_content t) = remaining_time t - 1
   \<and> timer_active (update_content t)
   \<and> winfo_exists (update_content t)
   \<and> dialogs (update_content t) = dialogs t"
  by (simp add: update_content_def)

lemma ticks_running:
  "winfo_exists t \<Longrightarrow> timer_active t \<Longrightarrow> int k \<le> remaining_time t \<Longrightarrow>
   remaining_time ((update_content ^^ k) t) = remaining_time t - int k
   \<and> timer_active ((update_content ^^ k) t)
   \<and> winfo_exists ((update_content ^^ k) t)
   \<and> dialogs ((update_content ^^ k) t) = dialogs t"
proof (induction k)
  case 0
  then show ?case by simp
next
  case (Suc k)
  then have ih: "remaining_time ((update_content ^^ k) t) = remaining_time t - int k"
    "timer_active ((update_content ^^ k) t)" "winfo_exists ((update_content ^^ k) t)"
    "dialogs ((update_content ^^ k) t) = dialogs t"
    by simp_all
  have pos: "0 < remaining_time ((update_content ^^ k) t)"
    using ih(1) Suc.prems(3) by simp
  show ?case
    using tick_running[OF ih(3) ih(2) pos] ih by simp
qed

lemma tick_expired:
  "winfo_exists t \<Longrightarrow> timer_active t \<Longrightarrow> remaining_time t \<le> 0 \<Longrightarrow>
   update_content t =
     t\<lparr>time_display := ''TIME!'', timer_active := False,
       dialogs := dialogs t @ [ShowInfo ''Timer'' ''Time's up!'']\<rparr>"
  by (simp add: update_content_def)

lemma tick_idle: "\<not> timer_active t \<Longrightarrow> update_content t = t"
  by (simp add: update_content_def)

lemma ticks_idle: "\<not> timer_active t \<Longrightarrow> (update_content ^^ k) t = t"
  by (induction k) (simp_all add: tick_idle)

text \<open>
  C3, as the code has it. After \<open>start(n)\<close> with \<open>n \<ge> 1\<close> on a timer whose label exists,
  \<open>n * 60\<close> ticks bring \<open>remaining_time\<close> to 0 with the timer still active and nothing
  shown. The next tick, number \<open>n * 60 + 1\<close>, switches the timer off and shows the one
  "Time's up!" box; however many ticks \<open>k\<close> follow, no other box is shown.
\<close>

theorem timer_countdown:
  assumes "1 \<le> n" and "py_int s = Some n" and "winfo_exists t"
  shows "remaining_time ((update_content ^^ (nat n * 60)) (start_timer s t)) = 0
    \<and> timer_active ((update_content ^^ (nat n * 60)) (start_timer s t))
    \<and> dialogs ((update_content ^^ (nat n * 60)) (start_timer s t)) = dialogs t
    \<and> remaining_time ((update_content ^^ (nat n * 60 + 1)) (start_timer s t)) = 0
    \<and> \<not> timer_active ((update_content ^^ (nat n * 60 + 1)) (start_timer s t))
    \<and> dialogs ((update_content ^^ (nat n * 60 + 1 + k)) (start_timer s t)) =
        dialogs t @ [ShowInfo ''Timer'' ''Time's up!'']"
proof -
  let ?s = "start_timer s t"
  let ?a = "(update_content ^^ (nat n * 60)) ?s"
  let ?b = "update_content ?a"
  have s: "remaining_time ?s = n * 60" "timer_active ?s" "winfo_exists ?s"
    "dialogs ?s = dialogs t"
    using assms by (simp_all add: start_timer_def)
  have le: "int (nat n * 60) \<le> remaining_time ?s"
    using s(1) assms(1) by simp
  have a: "remaining_time ?a = 0" "timer_active ?a" "winfo_exists ?a" "dialogs ?a = dialogs t"
    using ticks_running[OF s(3) s(2) le] s(1,4) assms(1) by simp_all
  have b: "?b = ?a\<lparr>time_display := ''TIME!'', timer_active := False,
                   dialogs := dialogs ?a @ [ShowInfo ''Timer'' ''Time's up!'']\<rparr>"
    using tick_expired[OF a(3) a(2)] a(1) by simp
  have bb: "(update_content ^^ (nat n * 60 + 1)) ?s = ?b"
    by simp
  have c: "(update_content ^^ (nat n * 60 + 1 + k)) ?s = ?b"
  proof -
    have "(update_content ^^ (nat n * 60 + 1 + k)) ?s =
          (update_content ^^ k) ((update_content ^^ (nat n * 60 + 1)) ?s)"
      by (simp only: funpow_add o_apply add.commute[of _ k])
    also have "\<dots> = ?b"
      unfolding bb using b by (simp add: ticks_idle)
    finally show ?thesis .
  qed
  have r1: "remaining_time ?b = 0"
    using b a(1) by simp
  have r2: "\<not> timer_active ?b"
    using b by simp
  have r3: "dialogs ?b = dialogs t @ [ShowInfo ''Timer'' ''Time's up!'']"
    using b a(4) by simp
  show ?thesis
    unfolding bb using a(1,2,4) r1 r2 r3 c by simp
qed

theorem timer_countdown_witness:
  "(1::int) \<le> 2 \<and> py_int ''2'' = Some 2 \<and> winfo_exists timer_fresh
   \<and> remaining_time ((update_content ^^ 120) (start_timer ''2'' timer_fresh)) = 0
   \<and> timer_active ((update_content ^^ 120) (start_timer ''2'' timer_fresh))
   \<and> \<not> timer_active ((update_content ^^ 121) (start_timer ''2'' timer_fresh))
   \<and> dialogs ((update_content ^^ 121) (start_timer ''2'' timer_fresh)) =
       [ShowInfo ''Timer'' ''Time's up!'']"
proof -
  have w: "winfo_exists timer_fresh" and d: "dialogs timer_fresh = []"
    by (simp_all add: timer_fresh_def)
  have n: "nat 2 * 60 = 120" "nat 2 * 60 + 1 = 121" "nat 2 * 60 + 1 + 0 = 121"
    by simp_all
  have "(1::int) \<le> 2"
    by simp
  from timer_countdown [of 2 "''2''" timer_fresh 0, OF this py_int_2 w]
  show ?thesis
    unfolding n d using w py_int_2 by (simp del: funpow.simps)
qed

text \<open>
  C3 as stated fails at \<open>n = 1\<close>: after \<open>start(1)\<close> and exactly 60 ticks the timer is
  still active and no "Time's up!" box has been shown.
\<close>

theorem timer_countdown_counterexample:
  "timer_active ((update_content ^^ (1 * 60)) (start_timer ''1'' timer_fresh))
   \<and> dialogs ((update_content ^^ (1 * 60)) (start_timer ''1'' timer_fresh)) = []"
proof -
  let ?s = "start_timer ''1'' timer_fresh"
  have s: "remaining_time ?s = 60" "timer_active ?s" "winfo_exists ?s" "dialogs ?s = []"
    by (simp_all add: start_timer_def py_int_1 timer_fresh_def)
  have "int 60 \<le> remaining_time ?s"
    using s(1) by simp
  from ticks_running[OF s(3) s(2) this] s(4) show ?thesis
    by simp
qed


section \<open>Loading records\<close>

lemma pin_to_desktop_ok:
  "pin_succeeds tk (inst_class wi) (config wi) (x, y) \<Longrightarrow>
   pin_to_desktop tk wi (DesktopWidget x y) =
     (\<lparr>dw_x = x, dw_y = y, desktop_window = True, is_pinned = True\<rparr>, None)"
  by (auto simp: pin_succeeds_def pin_to_desktop_def DesktopWidget_def split: sum.splits)

lemma observe_widget_heap_append:
  assumes "case wi_desktop_widget w of None \<Rightarrow> True | Some a \<Rightarrow> a < length (heap m)"
    and "heap m' = heap m @ h"
  shows "observe_widget m' w = observe_widget m w"
  using assms
  by (auto simp: observe_widget_def info_pinned_def position_of_def nth_append split: option.splits)

lemma observe_heap_append:
  assumes "heap_ok m" and "heap m' = heap m @ h"
  shows "map (observe_widget m') (active_widgets m) = observe m"
  unfolding observe_def
proof (rule map_cong[OF refl])
  fix w assume "w \<in> set (active_widgets m)"
  then have "case wi_desktop_widget w of None \<Rightarrow> True | Some a \<Rightarrow> a < length (heap m)"
    using assms(1) by (simp add: heap_ok_def list_all_iff)
  then show "observe_widget m' w = observe_widget m w"
    using assms(2) by (rule observe_widget_heap_append)
qed

lemma heap_ok_append:
  assumes "heap_ok m" and "heap m' = heap m @ h" and "active_widgets m' = active_widgets m @ [w]"
    and "case wi_desktop_widget w of None \<Rightarrow> True | Some a \<Rightarrow> a < length (heap m')"
  shows "heap_ok m'"
  using assms by (auto simp: heap_ok_def list_all_iff split: option.splits)

lemma load_widget_unrecognized:
  assumes "loadable tk r" and "\<not> recognized r"
  shows "load_widget tk r m = (m, None)"
  using assms
  by (auto simp: loadable_def recognized_def load_widget_def split: sum.splits option.splits)

lemma recognized_obj:
  assumes "recognized r"
  obtains kvs where "r = JObj kvs"
  using assms by (cases r) (auto simp: recognized_def)

lemma load_widget_recognized:
  assumes "heap_ok m" and "loadable tk r" and "recognized r"
  shows "\<exists>m' ob. load_widget tk r m = (m', None) \<and> heap_ok m' \<and> record_instance r = Some ob
           \<and> observe m' = observe m @ [ob]
           \<and> length (heap m) \<le> length (heap m')"
proof -
  from assms(3) obtain kvs where r: "r = JObj kvs" by (rule recognized_obj)
  from assms(2,3) r obtain t type_name cls cfg nm where
    t: "map_of kvs ''type'' = Some t" "py_hashable t" "widget_types_get t = Some (type_name, cls)"
    and c: "map_of kvs ''config'' = Some cfg" and n: "map_of kvs ''name'' = Some nm"
    by (auto simp: loadable_def recognized_def split: option.splits)
  let ?inst = "BaseWidget_init cls cfg"
  let ?w = "\<lparr>wi_type = type_name, wi_instance = ?inst, wi_name = nm, wi_desktop_widget = None\<rparr>"
  let ?m1 = "m\<lparr>active_widgets := active_widgets m @ [?w]\<rparr>"
  let ?p = "py_bool (case map_of kvs ''pinned'' of None \<Rightarrow> JBool False | Some p \<Rightarrow> p)"
  let ?x = "case map_of kvs ''desktop_x'' of None \<Rightarrow> JInt 100 | Some x \<Rightarrow> x"
  let ?y = "case map_of kvs ''desktop_y'' of None \<Rightarrow> JInt 100 | Some y \<Rightarrow> y"
  have ri: "record_instance r = Some (type_name, cls, nm, config ?inst, ?p, if ?p then Some (?x, ?y) else None)"
    using r t c n by (simp add: BaseWidget_init_def)
  show ?thesis
  proof (cases ?p)
    case False
    have lw: "load_widget tk r m = (?m1, None)"
      using r t c n False by (simp add: load_widget_def Let_def split: option.splits)
    have ok: "heap_ok ?m1"
      by (rule heap_ok_append[OF assms(1), of _ "[]" ?w]) simp_all
    have "observe ?m1 = map (observe_widget ?m1) (active_widgets m) @ [observe_widget ?m1 ?w]"
      by (simp add: observe_def)
    also have "map (observe_widget ?m1) (active_widgets m) = observe m"
      by (rule observe_heap_append[OF assms(1), of _ "[]"]) simp
    also have "observe_widget ?m1 ?w = (type_name, cls, nm, config ?inst, False, None)"
      by (simp add: observe_widget_def info_pinned_def BaseWidget_init_def)
    finally have ob: "observe ?m1 = observe m @ [(type_name, cls, nm, config ?inst, False, None)]" .
    show ?thesis using lw ok ob ri False by simp
  next
    case True
    have ps: "pin_succeeds tk cls (config ?inst) (?x, ?y)"
      using assms(2) r t ri True by (simp add: loadable_def)
    let ?a = "length (heap m)"
    let ?dw = "\<lparr>dw_x = ?x, dw_y = ?y, desktop_window = True, is_pinned = True\<rparr>"
    let ?w' = "?w\<lparr>wi_desktop_widget := Some ?a\<rparr>"
    let ?m2 = "\<lparr>active_widgets = active_widgets m @ [?w'],
               desktop_widgets = desktop_widgets m @ [?a], heap = heap m @ [?dw]\<rparr>"
    have pin: "pin_to_desktop tk ?inst (DesktopWidget ?x ?y) = (?dw, None)"
      using ps by (intro pin_to_desktop_ok) (simp add: BaseWidget_init_def)
    have rp: "restore_pinning tk r (length (active_widgets m)) ?m1 = (?m2, None)"
      using r pin by (simp add: restore_pinning_def Let_def split: option.splits)
    have lw: "load_widget tk r m = (?m2, None)"
      using r t c n True rp by (simp add: load_widget_def Let_def split: option.splits)
    have ok: "heap_ok ?m2"
      by (rule heap_ok_append[OF assms(1), of _ "[?dw]" ?w']) simp_all
    have "observe ?m2 = map (observe_widget ?m2) (active_widgets m) @ [observe_widget ?m2 ?w']"
      by (simp add: observe_def)
    also have "map (observe_widget ?m2) (active_widgets m) = observe m"
      by (rule observe_heap_append[OF assms(1), of _ "[?dw]"]) simp
    also have "observe_widget ?m2 ?w' = (type_name, cls, nm, config ?inst, True, Some (?x, ?y))"
      by (simp add: observe_widget_def info_pinned_def position_of_def BaseWidget_init_def)
    finally have ob: "observe ?m2 = observe m @ [(type_name, cls, nm, config ?inst, True, Some (?x, ?y))]" .
    show ?thesis using lw ok ob ri True by simp
  qed
qed

lemma load_widgets_loadable:
  assumes "heap_ok m" and "\<forall>r \<in> set recs. loadable tk r"
  shows "\<exists>m'. load_widgets tk recs m = (m', None) \<and> heap_ok m'
           \<and> map Some (observe m') = map Some (observe m) @ map record_instance (filter recognized recs)"
  using assms
proof (induction recs arbitrary: m)
  case Nil
  then show ?case by simp
next
  case (Cons r recs)
  show ?case
  proof (cases "recognized r")
    case False
    then have "load_widget tk r m = (m, None)"
      using Cons.prems(2) by (simp add: load_widget_unrecognized)
    then show ?thesis
      using Cons.IH[of m] Cons.prems False by simp
  next
    case True
    from load_widget_recognized[OF Cons.prems(1) _ True, of tk] Cons.prems(2)
    obtain m1 ob where s: "load_widget tk r m = (m1, None)" "heap_ok m1"
      "record_instance r = Some ob" "observe m1 = observe m @ [ob]"
      by auto
    from Cons.IH[OF s(2)] Cons.prems(2)
    obtain m' where "load_widgets tk recs m1 = (m', None)" "heap_ok m'"
      "map Some (observe m') = map Some (observe m1) @ map record_instance (filter recognized recs)"
      by auto
    then show ?thesis
      using s True by simp
  qed
qed

section \<open>Staggered positions\<close>


lemma heap_ok_D:
  "heap_ok m \<Longrightarrow> w \<in> set (active_widgets m) \<Longrightarrow> wi_desktop_widget w = Some a \<Longrightarrow> a < length (heap m)"
  by (auto simp: heap_ok_def list_all_iff split: option.splits)

lemma info_pinned_heap_append:
  assumes "heap_ok m" and "w \<in> set (active_widgets m)" and "heap m' = heap m @ h"
  shows "info_pinned m' w = info_pinned m w"
  using assms heap_ok_D[OF assms(1,2)]
  by (auto simp: info_pinned_def nth_append split: option.splits)

lemma position_of_heap_append:
  assumes "heap_ok m" and "w \<in> set (active_widgets m)" and "heap m' = heap m @ h"
    and "info_pinned m w"
  shows "position_of m' w = position_of m w"
  using assms heap_ok_D[OF assms(1,2)]
  by (auto simp: info_pinned_def position_of_def nth_append split: option.splits)



lemma pin_to_desktop_fresh:
  "pin_to_desktop tk inst (DesktopWidget x y) = (dw, err) \<Longrightarrow>
     (err = None \<and> dw = \<lparr>dw_x = x, dw_y = y, desktop_window = True, is_pinned = True\<rparr>)
   \<or> (err \<noteq> None \<and> dw = \<lparr>dw_x = x, dw_y = y, desktop_window = True, is_pinned = False\<rparr>)"
  by (auto simp: pin_to_desktop_def DesktopWidget_def Let_def split: sum.splits if_splits)





lemma info_pinned_same_heap: "heap m' = heap m \<Longrightarrow> info_pinned m' = info_pinned m"
  by (rule ext) (simp add: info_pinned_def cong: option.case_cong)

lemma position_of_same_heap: "heap m' = heap m \<Longrightarrow> position_of m' = position_of m"
  by (rule ext) (simp add: position_of_def)






section \<open>Well-formed managers\<close>

text \<open>
  Every command keeps a manager well formed, whatever the toolkit does; so every manager
  reached from the empty one by Create Widget, Pin Selected and Unpin Selected commands
  has well-formed widgets (\<open>reachable_wf\<close>).
\<close>

lemma wf_widget_heap_append:
  assumes "heap_ok m" and "w \<in> set (active_widgets m)" and "heap m' = heap m @ h"
    and "wf_widget tk m w"
  shows "wf_widget tk m' w"
  using assms info_pinned_heap_append[OF assms(1,2,3)] position_of_heap_append[OF assms(1,2,3)]
  by (auto simp: wf_widget_def)

lemma heap_ok_heap_append:
  assumes "heap_ok m" and "heap m' = heap m @ h" and "active_widgets m' = active_widgets m"
  shows "heap_ok m'"
  using assms by (auto simp: heap_ok_def list_all_iff split: option.splits)

lemma wf_manager_heap_only:
  assumes "wf_manager tk m"
  shows "wf_manager tk (m\<lparr>heap := heap m @ h\<rparr>)"
proof -
  let ?m' = "m\<lparr>heap := heap m @ h\<rparr>"
  have ok: "heap_ok m" and wf: "\<forall>w \<in> set (active_widgets m). wf_widget tk m w"
    using assms by (simp_all add: wf_manager_def list_all_iff)
  have "heap_ok ?m'"
    by (rule heap_ok_heap_append[OF ok]) simp_all
  moreover have "\<forall>w \<in> set (active_widgets ?m'). wf_widget tk ?m' w"
  proof
    fix w assume "w \<in> set (active_widgets ?m')"
    then have w: "w \<in> set (active_widgets m)" by simp
    show "wf_widget tk ?m' w"
      by (rule wf_widget_heap_append[OF ok w _ wf[rule_format, OF w]]) simp
  qed
  ultimately show ?thesis by (simp add: wf_manager_def list_all_iff)
qed

lemma pin_widget_to_desktop_result:
  assumes "\<not> info_pinned m (active_widgets m ! i)"
  shows "(pin_succeeds tk (inst_class (wi_instance (active_widgets m ! i)))
            (config (wi_instance (active_widgets m ! i))) (stagger (length (desktop_widgets m)))
          \<and> fst (pin_widget_to_desktop tk i m) =
       \<lparr>active_widgets = (active_widgets m)[i := (active_widgets m ! i)\<lparr>wi_desktop_widget := Some (length (heap m))\<rparr>],
        desktop_widgets = desktop_widgets m @ [length (heap m)],
        heap = heap m @ [\<lparr>dw_x = fst (stagger (length (desktop_widgets m))),
                          dw_y = snd (stagger (length (desktop_widgets m))),
                          desktop_window = True, is_pinned = True\<rparr>]\<rparr>)
     \<or> fst (pin_widget_to_desktop tk i m) =
         m\<lparr>heap := heap m @ [\<lparr>dw_x = fst (stagger (length (desktop_widgets m))),
                          dw_y = snd (stagger (length (desktop_widgets m))),
                          desktop_window = True, is_pinned = False\<rparr>]\<rparr>"
  using assms
  by (simp add: pin_widget_to_desktop_def pin_to_desktop_def DesktopWidget_def Let_def
      stagger_def pin_succeeds_def split: sum.splits)

lemma wf_manager_pinned:
  assumes wf: "wf_manager tk m" and i: "i < length (active_widgets m)"
    and ps: "pin_succeeds tk (inst_class (wi_instance (active_widgets m ! i)))
            (config (wi_instance (active_widgets m ! i))) (x, y)"
  shows "wf_manager tk
     \<lparr>active_widgets = (active_widgets m)[i := (active_widgets m ! i)\<lparr>wi_desktop_widget := Some (length (heap m))\<rparr>],
      desktop_widgets = dws,
      heap = heap m @ [\<lparr>dw_x = x, dw_y = y, desktop_window = True, is_pinned = True\<rparr>]\<rparr>"
    (is "wf_manager tk ?m'")
proof -
  let ?aw = "active_widgets m"
  let ?w' = "(?aw ! i)\<lparr>wi_desktop_widget := Some (length (heap m))\<rparr>"
  have ok: "heap_ok m" and wfm: "\<forall>w \<in> set ?aw. wf_widget tk m w"
    using wf by (simp_all add: wf_manager_def list_all_iff)
  have hp: "heap ?m' = heap m @ [\<lparr>dw_x = x, dw_y = y, desktop_window = True, is_pinned = True\<rparr>]"
    by simp
  have mem: "?aw ! i \<in> set ?aw"
    using i by simp
  have new: "wf_widget tk ?m' ?w'"
    using wfm[rule_format, OF mem] ps
    by (simp add: wf_widget_def info_pinned_def position_of_def)
  have all: "\<forall>w \<in> set (active_widgets ?m'). wf_widget tk ?m' w"
  proof
    fix w assume "w \<in> set (active_widgets ?m')"
    then have "w = ?w' \<or> w \<in> set ?aw"
      using set_update_subset_insert[of ?aw i ?w'] by auto
    then show "wf_widget tk ?m' w"
    proof
      assume "w = ?w'" then show ?thesis using new by simp
    next
      assume w: "w \<in> set ?aw"
      show ?thesis
        by (rule wf_widget_heap_append[OF ok w hp wfm[rule_format, OF w]])
    qed
  qed
  have ok': "heap_ok ?m'"
  proof -
    have "\<forall>w \<in> set (active_widgets ?m'). case wi_desktop_widget w of None \<Rightarrow> True | Some a \<Rightarrow> a < length (heap ?m')"
    proof
      fix w assume "w \<in> set (active_widgets ?m')"
      then have "w = ?w' \<or> w \<in> set ?aw"
        using set_update_subset_insert[of ?aw i ?w'] by auto
      then show "case wi_desktop_widget w of None \<Rightarrow> True | Some a \<Rightarrow> a < length (heap ?m')"
        using heap_ok_D[OF ok] by (auto split: option.splits simp: less_Suc_eq)
    qed
    then show ?thesis by (simp add: heap_ok_def list_all_iff)
  qed
  show ?thesis using ok' all by (simp add: wf_manager_def list_all_iff)
qed

lemma pin_widget_to_desktop_wf:
  assumes "wf_manager tk m" and "i < length (active_widgets m)"
  shows "wf_manager tk (fst (pin_widget_to_desktop tk i m))"
proof (cases "info_pinned m (active_widgets m ! i)")
  case True
  then show ?thesis using assms by (simp add: pin_widget_to_desktop_def)
next
  case False
  from pin_widget_to_desktop_result[OF False, of tk] show ?thesis
  proof (elim disjE conjE)
    assume ps: "pin_succeeds tk (inst_class (wi_instance (active_widgets m ! i)))
            (config (wi_instance (active_widgets m ! i))) (stagger (length (desktop_widgets m)))"
      and eq: "fst (pin_widget_to_desktop tk i m) =
       \<lparr>active_widgets = (active_widgets m)[i := (active_widgets m ! i)\<lparr>wi_desktop_widget := Some (length (heap m))\<rparr>],
        desktop_widgets = desktop_widgets m @ [length (heap m)],
        heap = heap m @ [\<lparr>dw_x = fst (stagger (length (desktop_widgets m))),
                          dw_y = snd (stagger (length (desktop_widgets m))),
                          desktop_window = True, is_pinned = True\<rparr>]\<rparr>"
    have ps': "pin_succeeds tk (inst_class (wi_instance (active_widgets m ! i)))
            (config (wi_instance (active_widgets m ! i)))
            (fst (stagger (length (desktop_widgets m))), snd (stagger (length (desktop_widgets m))))"
      using ps by simp
    show ?thesis
      unfolding eq by (rule wf_manager_pinned[OF assms ps'])
  next
    assume eq: "fst (pin_widget_to_desktop tk i m) =
         m\<lparr>heap := heap m @ [\<lparr>dw_x = fst (stagger (length (desktop_widgets m))),
                          dw_y = snd (stagger (length (desktop_widgets m))),
                          desktop_window = True, is_pinned = False\<rparr>]\<rparr>"
    show ?thesis
      unfolding eq by (rule wf_manager_heap_only[OF assms(1)])
  qed
qed

lemma wf_manager_new_widget:
  assumes "wf_manager tk m" and "wi_desktop_widget w = None"
    and "map_of widget_types (wi_type w) = Some (inst_class (wi_instance w))"
    and "py_bool (config (wi_instance w))"
  shows "wf_manager tk (m\<lparr>active_widgets := active_widgets m @ [w]\<rparr>)"
proof -
  let ?m' = "m\<lparr>active_widgets := active_widgets m @ [w]\<rparr>"
  have h: "heap ?m' = heap m"
    by simp
  have wfw: "wf_widget tk ?m' = wf_widget tk m"
    by (rule ext) (simp add: wf_widget_def info_pinned_same_heap[OF h] position_of_same_heap[OF h])
  have new: "wf_widget tk m w"
    using assms(2,3,4) by (simp add: wf_widget_def info_pinned_def)
  have ok: "heap_ok ?m'"
    using assms(1,2) by (simp add: wf_manager_def heap_ok_def cong: option.case_cong)
  show ?thesis
    using assms(1) ok new unfolding wf_manager_def wfw by simp
qed

lemma create_widget_wf:
  assumes "wf_manager tk m"
  shows "wf_manager tk (fst (create_widget tk widget_type m))"
proof (cases "map_of widget_types widget_type")
  case None
  then show ?thesis using assms by (simp add: create_widget_def)
next
  case (Some cls)
  let ?w = "\<lparr>wi_type = widget_type, wi_instance = BaseWidget_init cls JNull,
             wi_name = JStr (widget_type @ '' #'' @ str_of_nat (length (active_widgets m) + 1)),
             wi_desktop_widget = None\<rparr>"
  let ?m1 = "m\<lparr>active_widgets := active_widgets m @ [?w]\<rparr>"
  have tb: "py_bool (get_default_config cls)"
    by (cases cls) simp_all
  have "wf_manager tk ?m1"
    by (rule wf_manager_new_widget[OF assms]) (simp_all add: Some BaseWidget_init_def tb)
  then have "wf_manager tk (fst (pin_widget_to_desktop tk (length (active_widgets m)) ?m1))"
    by (rule pin_widget_to_desktop_wf) simp
  moreover have "fst (create_widget tk widget_type m) =
      fst (pin_widget_to_desktop tk (length (active_widgets m)) ?m1)"
  proof -
    obtain m2 err where p: "pin_widget_to_desktop tk (length (active_widgets m)) ?m1 = (m2, err)"
      by (cases "pin_widget_to_desktop tk (length (active_widgets m)) ?m1")
    have "create_widget tk widget_type m =
        (case pin_widget_to_desktop tk (length (active_widgets m)) ?m1 of
           (m2, Some e) \<Rightarrow> (m2, Raised e)
         | (m2, None) \<Rightarrow> (m2, Success_toast))"
      unfolding create_widget_def Let_def Some by simp
    then show ?thesis
      unfolding p by (cases err) simp_all
  qed
  ultimately show ?thesis by (simp only:)
qed

lemma pin_selected_widget_wf:
  assumes "wf_manager tk m"
  shows "wf_manager tk (fst (pin_selected_widget tk selection m))"
proof (cases selection)
  case None
  then show ?thesis using assms by (simp add: pin_selected_widget_def)
next
  case (Some index)
  show ?thesis
  proof (cases "index < length (active_widgets m) \<and> \<not> info_pinned m (active_widgets m ! index)")
    case True
    then have "fst (pin_selected_widget tk selection m) = fst (pin_widget_to_desktop tk index m)"
      using Some by (simp add: pin_selected_widget_def split: prod.splits option.splits)
    then show ?thesis using pin_widget_to_desktop_wf[OF assms, of index] True by simp
  next
    case False
    then have "fst (pin_selected_widget tk selection m) = m"
      using Some by (auto simp: pin_selected_widget_def)
    then show ?thesis using assms by simp
  qed
qed

lemma wf_widget_unpinned:
  assumes "wf_widget tk m w" and "length (heap m') = length (heap m)"
    and "\<And>b. wi_desktop_widget w = Some b \<Longrightarrow> heap m' ! b = heap m ! b \<or> \<not> is_pinned (heap m' ! b)"
  shows "wf_widget tk m' w"
proof (cases "wi_desktop_widget w")
  case None
  then show ?thesis using assms(1) by (simp add: wf_widget_def info_pinned_def)
next
  case (Some b)
  from assms(3)[OF Some] show ?thesis
  proof
    assume "heap m' ! b = heap m ! b"
    then show ?thesis using assms(1) Some
      by (simp add: wf_widget_def info_pinned_def position_of_def cong: if_cong)
  next
    assume "\<not> is_pinned (heap m' ! b)"
    then show ?thesis using assms(1) Some by (simp add: wf_widget_def info_pinned_def)
  qed
qed

lemma unpin_from_desktop_cases:
  "unpin_from_desktop dw = dw \<or> \<not> is_pinned (unpin_from_desktop dw)"
  by (simp add: unpin_from_desktop_def)

lemma wf_widget_same_heap:
  assumes h: "heap m' = heap m"
  shows "wf_widget tk m' = wf_widget tk m"
  by (rule ext) (simp add: wf_widget_def info_pinned_same_heap[OF h] position_of_same_heap[OF h])

lemma wf_manager_unpin:
  assumes "wf_manager tk m" and "a < length (heap m)"
  shows "wf_manager tk (m\<lparr>heap := (heap m)[a := unpin_from_desktop (heap m ! a)]\<rparr>)"
proof -
  let ?m' = "m\<lparr>heap := (heap m)[a := unpin_from_desktop (heap m ! a)]\<rparr>"
  have ok: "heap_ok m" and wf: "\<forall>w \<in> set (active_widgets m). wf_widget tk m w"
    using assms(1) by (simp_all add: wf_manager_def list_all_iff)
  have ok': "heap_ok ?m'"
    using ok by (simp add: heap_ok_def cong: option.case_cong)
  have "\<forall>w \<in> set (active_widgets ?m'). wf_widget tk ?m' w"
  proof
    fix w assume "w \<in> set (active_widgets ?m')"
    then have w: "w \<in> set (active_widgets m)" by simp
    show "wf_widget tk ?m' w"
    proof (rule wf_widget_unpinned[OF wf[rule_format, OF w]])
      show "length (heap ?m') = length (heap m)" by simp
    next
      fix b assume "wi_desktop_widget w = Some b"
      show "heap ?m' ! b = heap m ! b \<or> \<not> is_pinned (heap ?m' ! b)"
        using assms(2) unpin_from_desktop_cases[of "heap m ! a"]
        by (cases "b = a") auto
    qed
  qed
  then show ?thesis using ok' by (simp add: wf_manager_def list_all_iff)
qed

lemma wf_manager_clear_ref:
  assumes "wf_manager tk m"
  shows "wf_manager tk (m\<lparr>desktop_widgets := dws,
      active_widgets := (active_widgets m)[index :=
        (active_widgets m ! index)\<lparr>wi_desktop_widget := None\<rparr>]\<rparr>)"
proof (cases "index < length (active_widgets m)")
  case False
  then have "(active_widgets m)[index := (active_widgets m ! index)\<lparr>wi_desktop_widget := None\<rparr>]
      = active_widgets m"
    by (intro list_update_beyond) simp
  moreover have "wf_widget tk (m\<lparr>desktop_widgets := dws\<rparr>) = wf_widget tk m"
    by (rule wf_widget_same_heap) simp
  ultimately show ?thesis
    using assms
    by (simp add: wf_manager_def heap_ok_def cong: option.case_cong)
next
  case True
  let ?aw = "active_widgets m"
  let ?w' = "(?aw ! index)\<lparr>wi_desktop_widget := None\<rparr>"
  let ?m' = "m\<lparr>desktop_widgets := dws, active_widgets := ?aw[index := ?w']\<rparr>"
  have ok: "heap_ok m" and wf: "\<forall>w \<in> set ?aw. wf_widget tk m w"
    using assms by (simp_all add: wf_manager_def list_all_iff)
  have h: "heap ?m' = heap m" by simp
  have wfw: "wf_widget tk ?m' = wf_widget tk m"
    by (rule ext) (simp add: wf_widget_def info_pinned_same_heap[OF h] position_of_same_heap[OF h])
  have mem: "?aw ! index \<in> set ?aw" using True by simp
  have new: "wf_widget tk m ?w'"
    using wf[rule_format, OF mem] by (simp add: wf_widget_def info_pinned_def)
  have sub: "set (?aw[index := ?w']) \<subseteq> insert ?w' (set ?aw)"
    by (rule set_update_subset_insert)
  have all: "\<forall>w \<in> set (active_widgets ?m'). wf_widget tk ?m' w"
    unfolding wfw using sub new wf by auto
  have "\<forall>w \<in> set (active_widgets ?m'). case wi_desktop_widget w of None \<Rightarrow> True | Some a \<Rightarrow> a < length (heap ?m')"
  proof
    fix w assume "w \<in> set (active_widgets ?m')"
    then have "w = ?w' \<or> w \<in> set ?aw" using sub by auto
    then show "case wi_desktop_widget w of None \<Rightarrow> True | Some a \<Rightarrow> a < length (heap ?m')"
      using heap_ok_D[OF ok] by (auto split: option.splits)
  qed
  then have ok': "heap_ok ?m'" by (simp add: heap_ok_def list_all_iff)
  show ?thesis using ok' all by (simp add: wf_manager_def list_all_iff)
qed

lemma unpin_selected_widget_wf:
  assumes "wf_manager tk m"
  shows "wf_manager tk (fst (unpin_selected_widget selection m))"
proof (cases selection)
  case None
  then show ?thesis using assms by (simp add: unpin_selected_widget_def)
next
  case (Some index)
  show ?thesis
  proof (cases "index < length (active_widgets m)")
    case False
    then show ?thesis using assms Some by (simp add: unpin_selected_widget_def)
  next
    case True
    show ?thesis
    proof (cases "wi_desktop_widget (active_widgets m ! index)")
      case None
      then show ?thesis using assms Some True by (simp add: unpin_selected_widget_def Let_def)
    next
      case (Some a)
      have ok: "heap_ok m" using assms by (simp add: wf_manager_def)
      have a: "a < length (heap m)"
        using heap_ok_D[OF ok _ Some] True by simp
      let ?m1 = "m\<lparr>heap := (heap m)[a := unpin_from_desktop (heap m ! a)]\<rparr>"
      have w1: "wf_manager tk ?m1"
        by (rule wf_manager_unpin[OF assms a])
      have w2: "wf_manager tk (?m1\<lparr>desktop_widgets := remove1 a (desktop_widgets m),
          active_widgets := (active_widgets ?m1)[index :=
            (active_widgets ?m1 ! index)\<lparr>wi_desktop_widget := None\<rparr>]\<rparr>)"
        by (rule wf_manager_clear_ref[OF w1])
      show ?thesis
        using assms \<open>selection = Some index\<close> True Some w1 w2
        by (simp add: unpin_selected_widget_def Let_def)
    qed
  qed
qed

lemma run_wf:
  assumes "wf_manager tk m"
  shows "wf_manager tk (run tk cmds m)"
  using assms
proof (induction cmds arbitrary: m)
  case Nil
  then show ?case by (simp add: run_def)
next
  case (Cons c cmds)
  have "wf_manager tk (fst (exec tk c m))"
    using Cons.prems
    by (cases c) (simp_all add: create_widget_wf pin_selected_widget_wf unpin_selected_widget_wf)
  then have "wf_manager tk (run tk cmds (fst (exec tk c m)))"
    by (rule Cons.IH)
  then show ?case by (simp add: run_def)
qed

lemma wf_manager_init: "wf_manager tk manager_init"
  by (simp add: wf_manager_def manager_init_def heap_ok_def)

lemma reachable_wf:
  "list_all (wf_widget tk (run tk cmds manager_init)) (active_widgets (run tk cmds manager_init))"
  using run_wf[OF wf_manager_init, of tk cmds] by (simp add: wf_manager_def)

section \<open>Evaluating the example managers\<close>

lemmas mgr_eval = run_def create_widget_def pin_selected_widget_def unpin_selected_widget_def
  pin_widget_to_desktop_def pin_to_desktop_def unpin_from_desktop_def DesktopWidget_def
  BaseWidget_init_def widget_types_def manager_init_def info_pinned_def tk_always_def
  Let_def position_of_def pinned_positions_def digit_char_def

lemma manager_one_eval: "manager_one =
   \<lparr>active_widgets =
      [\<lparr>wi_type = ''Clock'',
        wi_instance = \<lparr>inst_class = ClockWidget, config = get_default_config ClockWidget\<rparr>,
        wi_name = JStr ''Clock #1'', wi_desktop_widget = Some 0\<rparr>],
    desktop_widgets = [0],
    heap = [\<lparr>dw_x = JInt 100, dw_y = JInt 100, desktop_window = True, is_pinned = True\<rparr>]\<rparr>"
  by (simp add: manager_one_def mgr_eval)

lemma manager_two_eval: "manager_two =
   \<lparr>active_widgets =
      [\<lparr>wi_type = ''Clock'',
        wi_instance = \<lparr>inst_class = ClockWidget, config = get_default_config ClockWidget\<rparr>,
        wi_name = JStr ''Clock #1'', wi_desktop_widget = None\<rparr>,
       \<lparr>wi_type = ''Timer'',
        wi_instance = \<lparr>inst_class = TimerWidget, config = get_default_config TimerWidget\<rparr>,
        wi_name = JStr ''Timer #2'', wi_desktop_widget = Some 1\<rparr>],
    desktop_widgets = [1],
    heap = [\<lparr>dw_x = JInt 100, dw_y = JInt 100, desktop_window = False, is_pinned = False\<rparr>,
            \<lparr>dw_x = JInt 130, dw_y = JInt 130, desktop_window = True, is_pinned = True\<rparr>]\<rparr>"
  by (simp add: manager_two_def mgr_eval)

lemma manager_three_eval: "manager_three =
   \<lparr>active_widgets =
      [\<lparr>wi_type = ''Clock'',
        wi_instance = \<lparr>inst_class = ClockWidget, config = get_default_config ClockWidget\<rparr>,
        wi_name = JStr ''Clock #1'', wi_desktop_widget = Some 0\<rparr>,
       \<lparr>wi_type = ''Timer'',
        wi_instance = \<lparr>inst_class = TimerWidget, config = get_default_config TimerWidget\<rparr>,
        wi_name = JStr ''Timer #2'', wi_desktop_widget = None\<rparr>,
       \<lparr>wi_type = ''Todo List'',
        wi_instance = \<lparr>inst_class = TodoWidget, config = get_default_config TodoWidget\<rparr>,
        wi_name = JStr ''Todo List #3'', wi_desktop_widget = Some 2\<rparr>],
    desktop_widgets = [0, 2],
    heap = [\<lparr>dw_x = JInt 100, dw_y = JInt 100, desktop_window = True, is_pinned = True\<rparr>,
            \<lparr>dw_x = JInt 130, dw_y = JInt 130, desktop_window = False, is_pinned = False\<rparr>,
            \<lparr>dw_x = JInt 160, dw_y = JInt 160, desktop_window = True, is_pinned = True\<rparr>]\<rparr>"
  by (simp add: manager_three_def mgr_eval)

section \<open>Pinning and unpinning\<close>




text \<open>
  C8. For a selected widget that is already pinned, \<open>pin_selected_widget\<close> returns the
  manager unchanged and shows the information toast, and \<open>pin_widget_to_desktop\<close>
  returns the manager unchanged too. For a selected widget that is not pinned,
  \<open>unpin_selected_widget\<close> returns the manager unchanged and shows the information
  toast.
\<close>

theorem pin_unpin_idempotent:
  assumes "index < length (active_widgets m)"
  shows "(info_pinned m (active_widgets m ! index) \<longrightarrow>
            pin_selected_widget tk (Some index) m = (m, Info_toast)
          \<and> pin_widget_to_desktop tk index m = (m, None))
       \<and> (\<not> info_pinned m (active_widgets m ! index) \<longrightarrow>
            unpin_selected_widget (Some index) m = (m, Info_toast))"
  using assms
  by (auto simp: pin_selected_widget_def pin_widget_to_desktop_def unpin_selected_widget_def
      info_pinned_def Let_def split: option.splits)

theorem pin_unpin_idempotent_witness:
  "(1::nat) < length (active_widgets manager_two)
   \<and> info_pinned manager_two (active_widgets manager_two ! 1)
   \<and> pin_selected_widget tk_always (Some 1) manager_two = (manager_two, Info_toast)
   \<and> \<not> info_pinned manager_two (active_widgets manager_two ! 0)
   \<and> unpin_selected_widget (Some 0) manager_two = (manager_two, Info_toast)"
proof -
  have l: "(1::nat) < length (active_widgets manager_two)"
    "(0::nat) < length (active_widgets manager_two)"
    by (simp_all add: manager_two_eval)
  have p: "info_pinned manager_two (active_widgets manager_two ! 1)"
    "\<not> info_pinned manager_two (active_widgets manager_two ! 0)"
    by (simp_all add: manager_two_eval info_pinned_def)
  show ?thesis
    using pin_unpin_idempotent [OF l(1), of tk_always] pin_unpin_idempotent [OF l(2), of tk_always]
      l p by simp
qed

section \<open>Loading and saving\<close>

lemma load_config_never_raises: "snd (load_config tk file m) \<noteq> Raised e"
  by (simp add: load_config_def Let_def split: file_state.splits sum.splits prod.splits option.splits)

lemma load_config_reports:
  "snd (load_config tk (Document d) m) = Success_toast \<or>
   snd (load_config tk (Document d) m) = Error_toast"
  by (simp add: load_config_def Let_def split: sum.splits prod.splits option.splits)

lemma load_config_document:
  assumes "map_of kvs ''widgets'' = Some (JList recs)" and "\<forall>r \<in> set recs. loadable tk r"
  shows "snd (load_config tk (Document (JObj kvs)) m) = Success_toast
    \<and> map Some (observe (fst (load_config tk (Document (JObj kvs)) m))) =
        map record_instance (filter recognized recs)"
proof -
  let ?m1 = "\<lparr>active_widgets = [], desktop_widgets = [],
              heap = unpin_all (active_widgets m) (heap m)\<rparr>"
  have ok: "heap_ok ?m1"
    by (simp add: heap_ok_def)
  have ob: "observe ?m1 = []"
    by (simp add: observe_def)
  from load_widgets_loadable[OF ok assms(2)] obtain m' where
    lw: "load_widgets tk recs ?m1 = (m', None)"
    and o: "map Some (observe m') = map Some (observe ?m1) @ map record_instance (filter recognized recs)"
    by auto
  have "load_config tk (Document (JObj kvs)) m = (m', Success_toast)"
    using assms(1) lw by (simp add: load_config_def Let_def)
  then show ?thesis
    using o ob by simp
qed

lemma restore_pinning_plan:
  "restore_pinning tk widget_data (length (active_widgets m))
     (m\<lparr>active_widgets := active_widgets m @
          [\<lparr>wi_type = type_name, wi_instance = inst, wi_name = nm, wi_desktop_widget = None\<rparr>]\<rparr>)
   = apply_step (plan_pinning tk widget_data type_name inst nm) m"
proof (cases "py_get widget_data ''desktop_x'' (JInt 100)")
  case (Inl e)
  then show ?thesis by (simp add: restore_pinning_def plan_pinning_def)
next
  case x: (Inr x)
  show ?thesis
  proof (cases "py_get widget_data ''desktop_y'' (JInt 100)")
    case (Inl e)
    then show ?thesis using x by (simp add: restore_pinning_def plan_pinning_def)
  next
    case y: (Inr y)
    obtain dw err where p: "pin_to_desktop tk inst (DesktopWidget x y) = (dw, err)"
      by (cases "pin_to_desktop tk inst (DesktopWidget x y)")
    show ?thesis
      using x y p by (cases err) (simp_all add: restore_pinning_def plan_pinning_def Let_def)
  qed
qed

lemma load_widget_plan: "load_widget tk widget_data m = apply_step (plan_widget tk widget_data) m"
proof (cases "py_getitem widget_data ''type''")
  case (Inl e)
  then show ?thesis by (simp add: load_widget_def plan_widget_def)
next
  case t: (Inr widget_type)
  show ?thesis
  proof (cases "py_hashable widget_type")
    case False
    then show ?thesis using t by (simp add: load_widget_def plan_widget_def)
  next
    case h: True
    show ?thesis
    proof (cases "widget_types_get widget_type")
      case None
      then show ?thesis using t h by (simp add: load_widget_def plan_widget_def)
    next
      case (Some tc)
      obtain type_name widget_class where tc: "tc = (type_name, widget_class)"
        by (cases tc)
      show ?thesis
      proof (cases "py_getitem widget_data ''config''")
        case (Inl e)
        then show ?thesis using t h Some tc by (simp add: load_widget_def plan_widget_def)
      next
        case c: (Inr cfg)
        show ?thesis
        proof (cases "py_getitem widget_data ''name''")
          case (Inl e)
          then show ?thesis using t h Some tc c by (simp add: load_widget_def plan_widget_def)
        next
          case n: (Inr nm)
          show ?thesis
          proof (cases "py_get widget_data ''pinned'' (JBool False)")
            case (Inl e)
            then show ?thesis
              using t h Some tc c n by (simp add: load_widget_def plan_widget_def Let_def)
          next
            case p: (Inr p)
            show ?thesis
            proof (cases "py_bool p")
              case False
              then show ?thesis
                using t h Some tc c n p by (simp add: load_widget_def plan_widget_def Let_def)
            next
              case True
              then show ?thesis
                using t h Some tc c n p restore_pinning_plan
                by (simp add: load_widget_def plan_widget_def Let_def)
            qed
          qed
        qed
      qed
    qed
  qed
qed

lemma observe_append_widget:
  assumes "heap_ok m" and "heap m' = heap m @ h" and "active_widgets m' = active_widgets m @ [w]"
  shows "observe m' = observe m @ [observe_widget m' w]"
proof -
  have "observe m' = map (observe_widget m') (active_widgets m) @ [observe_widget m' w]"
    by (simp add: observe_def assms(3))
  then show ?thesis
    using observe_heap_append[OF assms(1,2)] by simp
qed

lemma apply_step_sim:
  assumes "heap_ok m" and "heap_ok m0" and "observe m = observe m0"
  shows "snd (apply_step st m) = snd (apply_step st m0)
       \<and> heap_ok (fst (apply_step st m)) \<and> heap_ok (fst (apply_step st m0))
       \<and> observe (fst (apply_step st m)) = observe (fst (apply_step st m0))"
proof (cases st)
  case (Step_skip e)
  then show ?thesis using assms by simp
next
  case (Step_append type_name inst nm e)
  let ?w = "\<lparr>wi_type = type_name, wi_instance = inst, wi_name = nm, wi_desktop_widget = None\<rparr>"
  have o: "observe (k\<lparr>active_widgets := active_widgets k @ [?w]\<rparr>) =
      observe k @ [(type_name, inst_class inst, nm, config inst, False, None)]"
    and k: "heap_ok (k\<lparr>active_widgets := active_widgets k @ [?w]\<rparr>)" if "heap_ok k" for k
  proof -
    show "observe (k\<lparr>active_widgets := active_widgets k @ [?w]\<rparr>) =
      observe k @ [(type_name, inst_class inst, nm, config inst, False, None)]"
      using observe_append_widget[OF that, of "k\<lparr>active_widgets := active_widgets k @ [?w]\<rparr>" "[]" ?w]
      by (simp add: observe_widget_def info_pinned_def)
    show "heap_ok (k\<lparr>active_widgets := active_widgets k @ [?w]\<rparr>)"
      by (rule heap_ok_append[OF that, of _ "[]" ?w]) simp_all
  qed
  show ?thesis
    using Step_append assms o k by simp
next
  case (Step_pin type_name inst nm dw err)
  show ?thesis
  proof (cases err)
    case (Some e)
    let ?w = "\<lparr>wi_type = type_name, wi_instance = inst, wi_name = nm, wi_desktop_widget = None\<rparr>"
    have o: "observe (k\<lparr>active_widgets := active_widgets k @ [?w], heap := heap k @ [dw]\<rparr>) =
        observe k @ [(type_name, inst_class inst, nm, config inst, False, None)]"
      and k: "heap_ok (k\<lparr>active_widgets := active_widgets k @ [?w], heap := heap k @ [dw]\<rparr>)"
      if "heap_ok k" for k
    proof -
      show "observe (k\<lparr>active_widgets := active_widgets k @ [?w], heap := heap k @ [dw]\<rparr>) =
        observe k @ [(type_name, inst_class inst, nm, config inst, False, None)]"
        using observe_append_widget[OF that,
            of "k\<lparr>active_widgets := active_widgets k @ [?w], heap := heap k @ [dw]\<rparr>" "[dw]" ?w]
        by (simp add: observe_widget_def info_pinned_def)
      show "heap_ok (k\<lparr>active_widgets := active_widgets k @ [?w], heap := heap k @ [dw]\<rparr>)"
        by (rule heap_ok_append[OF that, of _ "[dw]" ?w]) simp_all
    qed
    show ?thesis
      using Step_pin Some assms o k by simp
  next
    case None
    let ?w = "\<lambda>k. \<lparr>wi_type = type_name, wi_instance = inst, wi_name = nm,
                   wi_desktop_widget = Some (length (heap k))\<rparr>"
    let ?k' = "\<lambda>k. k\<lparr>active_widgets := active_widgets k @ [?w k],
                      desktop_widgets := desktop_widgets k @ [length (heap k)],
                      heap := heap k @ [dw]\<rparr>"
    have o: "observe (?k' k) =
        observe k @ [(type_name, inst_class inst, nm, config inst, is_pinned dw,
                      if is_pinned dw then Some (dw_x dw, dw_y dw) else None)]"
      and k: "heap_ok (?k' k)" if "heap_ok k" for k
    proof -
      show "observe (?k' k) =
        observe k @ [(type_name, inst_class inst, nm, config inst, is_pinned dw,
                      if is_pinned dw then Some (dw_x dw, dw_y dw) else None)]"
        using observe_append_widget[OF that, of "?k' k" "[dw]" "?w k"]
        by (simp add: observe_widget_def info_pinned_def position_of_def)
      show "heap_ok (?k' k)"
        by (rule heap_ok_append[OF that, of _ "[dw]" "?w k"]) simp_all
    qed
    show ?thesis
      using Step_pin None assms o k by simp
  qed
qed

lemma load_widgets_sim:
  assumes "heap_ok m" and "heap_ok m0" and "observe m = observe m0"
  shows "snd (load_widgets tk recs m) = snd (load_widgets tk recs m0)
       \<and> observe (fst (load_widgets tk recs m)) = observe (fst (load_widgets tk recs m0))"
  using assms
proof (induction recs arbitrary: m m0)
  case Nil
  then show ?case by simp
next
  case (Cons r recs)
  obtain m1 e1 where a: "load_widget tk r m = (m1, e1)"
    by (cases "load_widget tk r m")
  obtain m2 e2 where b: "load_widget tk r m0 = (m2, e2)"
    by (cases "load_widget tk r m0")
  from apply_step_sim[OF Cons.prems, of "plan_widget tk r"]
  have s: "e1 = e2" "heap_ok m1" "heap_ok m2" "observe m1 = observe m2"
    using a b by (simp_all add: load_widget_plan)
  show ?case
  proof (cases e1)
    case None
    then show ?thesis
      using a b s Cons.IH[OF s(2,3,4)] by simp
  next
    case (Some e)
    then show ?thesis
      using a b s by simp
  qed
qed

lemma load_config_replaces:
  "snd (load_config tk (Document d) m) = snd (load_config tk (Document d) m0)
   \<and> observe (fst (load_config tk (Document d) m)) = observe (fst (load_config tk (Document d) m0))"
proof -
  let ?c = "\<lambda>k. \<lparr>active_widgets = [], desktop_widgets = [],
                  heap = unpin_all (active_widgets k) (heap k)\<rparr>"
  have ok: "heap_ok (?c k)" for k
    by (simp add: heap_ok_def)
  have ob: "observe (?c k) = []" for k
    by (simp add: observe_def)
  show ?thesis
  proof (cases "py_get d ''widgets'' (JList [])")
    case (Inl e)
    then show ?thesis by (simp add: load_config_def Let_def ob)
  next
    case w: (Inr ws)
    show ?thesis
    proof (cases "py_iter ws")
      case (Inl e)
      then show ?thesis using w by (simp add: load_config_def Let_def ob)
    next
      case (Inr recs)
      have e: "observe (?c m) = observe (?c m0)"
        by (simp add: ob)
      obtain m1 e1 where a: "load_widgets tk recs (?c m) = (m1, e1)"
        by (cases "load_widgets tk recs (?c m)")
      obtain m2 e2 where b: "load_widgets tk recs (?c m0) = (m2, e2)"
        by (cases "load_widgets tk recs (?c m0)")
      from load_widgets_sim[OF ok ok e, of tk recs]
      have s: "e1 = e2" "observe m1 = observe m2"
        using a b by simp_all
      have "load_config tk (Document d) m = (m1, case e1 of None \<Rightarrow> Success_toast | Some x \<Rightarrow> Error_toast)"
        using w Inr a by (cases e1) (simp_all add: load_config_def Let_def)
      moreover have "load_config tk (Document d) m0 = (m2, case e2 of None \<Rightarrow> Success_toast | Some x \<Rightarrow> Error_toast)"
        using w Inr b by (cases e2) (simp_all add: load_config_def Let_def)
      ultimately show ?thesis
        using s by simp
    qed
  qed
qed

lemma unpin_all_Nil: "unpin_all [] h = h"
  by (simp add: unpin_all_def)

lemma unpin_all_Cons: "unpin_all (w # ws) h = unpin_all ws (unpin_step h w)"
  by (simp add: unpin_all_def unpin_step_def)

lemma length_unpin_step: "length (unpin_step h w) = length h"
  by (simp add: unpin_step_def split: option.splits)

lemma length_unpin_all: "length (unpin_all ws h) = length h"
  by (induction ws arbitrary: h) (simp_all add: unpin_all_Nil unpin_all_Cons length_unpin_step)

lemma unpin_step_pinned_same:
  assumes "a < length h" and "is_pinned (unpin_step h w ! a)"
  shows "unpin_step h w ! a = h ! a"
proof (cases "wi_desktop_widget w")
  case None
  then show ?thesis by (simp add: unpin_step_def)
next
  case (Some b)
  show ?thesis
  proof (cases "b = a \<and> is_pinned (h ! a)")
    case True
    then have "unpin_step h w ! a = unpin_from_desktop (h ! a)"
      using Some assms(1) by (simp add: unpin_step_def)
    then show ?thesis
      using assms(2) by (simp add: unpin_from_desktop_def split: if_splits)
  next
    case False
    show ?thesis
    proof (cases "b = a")
      case True
      then show ?thesis using False Some by (simp add: unpin_step_def)
    next
      case ne: False
      then show ?thesis using Some by (simp add: unpin_step_def)
    qed
  qed
qed

lemma unpin_all_pinned_same:
  "a < length h \<Longrightarrow> is_pinned (unpin_all ws h ! a) \<Longrightarrow> unpin_all ws h ! a = h ! a"
proof (induction ws arbitrary: h)
  case Nil
  then show ?case by (simp add: unpin_all_Nil)
next
  case (Cons w ws)
  have l: "a < length (unpin_step h w)"
    using Cons.prems(1) by (simp add: length_unpin_step)
  have p: "is_pinned (unpin_all ws (unpin_step h w) ! a)"
    using Cons.prems(2) by (simp add: unpin_all_Cons)
  have e: "unpin_all ws (unpin_step h w) ! a = unpin_step h w ! a"
    by (rule Cons.IH[OF l p])
  then have "is_pinned (unpin_step h w ! a)"
    using p by simp
  then have "unpin_step h w ! a = h ! a"
    by (rule unpin_step_pinned_same[OF Cons.prems(1)])
  then show ?case
    using e by (simp add: unpin_all_Cons)
qed

lemma unpin_step_unpins:
  "wi_desktop_widget w = Some a \<Longrightarrow> a < length h \<Longrightarrow> desktop_window (h ! a) \<Longrightarrow>
   \<not> is_pinned (unpin_step h w ! a)"
  by (simp add: unpin_step_def unpin_from_desktop_def)

lemma unpin_all_unpins:
  assumes "w \<in> set ws" and "wi_desktop_widget w = Some a" and "a < length h"
    and "desktop_window (h ! a)"
  shows "\<not> is_pinned (unpin_all ws h ! a)"
  using assms(1,3,4)
proof (induction ws arbitrary: h)
  case Nil
  then show ?case by simp
next
  case (Cons x xs)
  let ?h1 = "unpin_step h x"
  have l: "a < length ?h1"
    using Cons.prems(2) by (simp add: length_unpin_step)
  show ?case
  proof
    assume "is_pinned (unpin_all (x # xs) h ! a)"
    then have p: "is_pinned (unpin_all xs ?h1 ! a)"
      by (simp add: unpin_all_Cons)
    then have "unpin_all xs ?h1 ! a = ?h1 ! a"
      by (rule unpin_all_pinned_same[OF l])
    then have p1: "is_pinned (?h1 ! a)"
      using p by simp
    then have same: "?h1 ! a = h ! a"
      by (rule unpin_step_pinned_same[OF Cons.prems(2)])
    then have win: "desktop_window (?h1 ! a)"
      using Cons.prems(3) by simp
    from Cons.prems(1) have "w = x \<or> w \<in> set xs"
      by auto
    then show False
    proof
      assume "w = x"
      then have "\<not> is_pinned (?h1 ! a)"
        using unpin_step_unpins[OF assms(2) Cons.prems(2,3)] by simp
      then show False using p1 by simp
    next
      assume "w \<in> set xs"
      then have "\<not> is_pinned (unpin_all xs ?h1 ! a)"
        using l win by (rule Cons.IH)
      then show False using p by simp
    qed
  qed
qed

lemma apply_step_heap: "\<exists>h. heap (fst (apply_step st m)) = heap m @ h"
proof (cases st)
  case (Step_pin type_name inst nm dw err)
  then show ?thesis by (cases err) simp_all
qed simp_all

lemma load_widgets_heap: "\<exists>h. heap (fst (load_widgets tk recs m)) = heap m @ h"
proof (induction recs arbitrary: m)
  case Nil
  then show ?case by simp
next
  case (Cons r recs)
  obtain m1 e1 where a: "load_widget tk r m = (m1, e1)"
    by (cases "load_widget tk r m")
  from apply_step_heap[of "plan_widget tk r" m] obtain h1 where h1: "heap m1 = heap m @ h1"
    using a by (auto simp: load_widget_plan)
  show ?case
  proof (cases e1)
    case None
    from Cons.IH[of m1] obtain h2 where "heap (fst (load_widgets tk recs m1)) = heap m1 @ h2"
      by auto
    then show ?thesis using a None h1 by simp
  next
    case (Some e)
    then show ?thesis using a h1 by simp
  qed
qed

lemma load_config_heap:
  "\<exists>h. heap (fst (load_config tk (Document d) m)) = unpin_all (active_widgets m) (heap m) @ h"
proof -
  let ?c = "\<lparr>active_widgets = [], desktop_widgets = [],
             heap = unpin_all (active_widgets m) (heap m)\<rparr>"
  show ?thesis
  proof (cases "py_get d ''widgets'' (JList [])")
    case (Inl e)
    then show ?thesis by (simp add: load_config_def Let_def)
  next
    case w: (Inr ws)
    show ?thesis
    proof (cases "py_iter ws")
      case (Inl e)
      then show ?thesis using w by (simp add: load_config_def Let_def)
    next
      case (Inr recs)
      obtain m1 e1 where a: "load_widgets tk recs ?c = (m1, e1)"
        by (cases "load_widgets tk recs ?c")
      from load_widgets_heap[of tk recs ?c] obtain h where "heap m1 = heap ?c @ h"
        using a by auto
      then show ?thesis
        using w Inr a by (cases e1) (simp_all add: load_config_def Let_def)
    qed
  qed
qed

lemma load_config_unpins:
  assumes "w \<in> set (active_widgets m)" and "wi_desktop_widget w = Some a"
    and "a < length (heap m)" and "desktop_window (heap m ! a)"
  shows "\<not> is_pinned (heap (fst (load_config tk (Document d) m)) ! a)"
proof -
  from load_config_heap[of tk d m] obtain h where
    h: "heap (fst (load_config tk (Document d) m)) = unpin_all (active_widgets m) (heap m) @ h"
    by auto
  have "a < length (unpin_all (active_widgets m) (heap m))"
    using assms(3) by (simp add: length_unpin_all)
  then have "heap (fst (load_config tk (Document d) m)) ! a = unpin_all (active_widgets m) (heap m) ! a"
    unfolding h by (simp add: nth_append)
  then show ?thesis
    using unpin_all_unpins[OF assms] by simp
qed

text \<open>
  C4, as the code has it. With no layout file \<open>load_config\<close> returns the manager
  unchanged and shows nothing. With a file that cannot be read or parsed it returns the
  manager unchanged and shows the error toast. A file that parses is not loaded
  atomically. \<open>load_config\<close> ends with the success toast or the error toast, and in
  either case the toast and the widgets of the manager afterwards (their types, names,
  configurations, pin states and positions) are the same whatever manager \<open>m\<close> or
  \<open>m0\<close> the file is loaded into: the widgets held before are discarded. Moreover the
  \<open>DesktopWidget\<close> of every widget held before, if it had a window, is not pinned
  afterwards.
\<close>

theorem load_config_failure:
  "load_config tk Missing m = (m, Silent)
   \<and> load_config tk Unreadable m = (m, Error_toast)
   \<and> (snd (load_config tk (Document d) m) = Success_toast \<or>
       snd (load_config tk (Document d) m) = Error_toast)
   \<and> snd (load_config tk (Document d) m) = snd (load_config tk (Document d) m0)
   \<and> observe (fst (load_config tk (Document d) m)) =
       observe (fst (load_config tk (Document d) m0))
   \<and> (w \<in> set (active_widgets m) \<and> wi_desktop_widget w = Some a \<and> a < length (heap m) \<and>
       desktop_window (heap m ! a) \<longrightarrow>
       \<not> is_pinned (heap (fst (load_config tk (Document d) m)) ! a))"
proof -
  have a: "load_config tk Missing m = (m, Silent)"
    and b: "load_config tk Unreadable m = (m, Error_toast)"
    by (simp_all add: load_config_def)
  show ?thesis
    using a b load_config_reports[of tk d m] load_config_replaces[of tk d m m0]
      load_config_unpins[of w m a tk d]
    by blast
qed

lemma load_doc_partial_init:
  "load_config tk_always (Document doc_partial) manager_init =
     (\<lparr>active_widgets =
         [\<lparr>wi_type = ''Clock'',
           wi_instance = \<lparr>inst_class = ClockWidget, config = JObj [(''width'', JInt 280)]\<rparr>,
           wi_name = JStr ''Clock #1'', wi_desktop_widget = None\<rparr>],
       desktop_widgets = [], heap = []\<rparr>, Error_toast)"
  by (simp add: doc_partial_def manager_init_def load_config_def unpin_all_def load_widget_def
      widget_types_def BaseWidget_init_def Let_def)

lemma load_doc_odd_record:
  "load_config tk_always (Document doc_odd_record) manager_init =
     (\<lparr>active_widgets =
         [\<lparr>wi_type = ''Clock'',
           wi_instance = \<lparr>inst_class = ClockWidget, config = JInt 5\<rparr>,
           wi_name = JNull, wi_desktop_widget = None\<rparr>],
       desktop_widgets = [], heap = []\<rparr>, Success_toast)"
  by (simp add: doc_odd_record_def manager_init_def load_config_def unpin_all_def load_widget_def
      widget_types_def BaseWidget_init_def Let_def)

theorem load_config_failure_witness:
  "active_widgets manager_three ! 0 \<in> set (active_widgets manager_three)
   \<and> wi_desktop_widget (active_widgets manager_three ! 0) = Some 0
   \<and> 0 < length (heap manager_three)
   \<and> desktop_window (heap manager_three ! 0)
   \<and> is_pinned (heap manager_three ! 0)
   \<and> snd (load_config tk_always (Document doc_partial) manager_three) = Error_toast
   \<and> observe (fst (load_config tk_always (Document doc_partial) manager_three)) =
       [(''Clock'', ClockWidget, JStr ''Clock #1'', JObj [(''width'', JInt 280)], False, None)]
   \<and> \<not> is_pinned (heap (fst (load_config tk_always (Document doc_partial) manager_three)) ! 0)"
proof -
  have h: "active_widgets manager_three ! 0 \<in> set (active_widgets manager_three)"
    "wi_desktop_widget (active_widgets manager_three ! 0) = Some 0"
    "0 < length (heap manager_three)"
    "desktop_window (heap manager_three ! 0)"
    "is_pinned (heap manager_three ! 0)"
    by (simp_all add: manager_three_eval)
  have i: "snd (load_config tk_always (Document doc_partial) manager_init) = Error_toast"
    "observe (fst (load_config tk_always (Document doc_partial) manager_init)) =
       [(''Clock'', ClockWidget, JStr ''Clock #1'', JObj [(''width'', JInt 280)], False, None)]"
    by (simp_all add: load_doc_partial_init observe_def observe_widget_def info_pinned_def)
  from load_config_failure [of tk_always manager_three doc_partial manager_init
      "active_widgets manager_three ! 0" 0]
  show ?thesis
    using h i by simp
qed

text \<open>A record with odd values is not always an error: this one is loaded.\<close>

lemma load_doc_odd_record_succeeds:
  "snd (load_config tk_always (Document doc_odd_record) manager_init) = Success_toast"
  by (simp add: load_doc_odd_record)

lemma load_doc_missing_config:
  "load_config tk_always (Document doc_missing_config) manager_one =
     (\<lparr>active_widgets = [], desktop_widgets = [],
       heap = [\<lparr>dw_x = JInt 100, dw_y = JInt 100, desktop_window = False, is_pinned = False\<rparr>]\<rparr>,
      Error_toast)"
  by (simp add: manager_one_eval doc_missing_config_def load_config_def unpin_all_def
      unpin_from_desktop_def load_widget_def widget_types_def Let_def)

text \<open>
  C4 as stated fails for a file that parses but is malformed: loading
  \<open>doc_missing_config\<close> into the manager with one pinned clock shows the error toast,
  but the clock has been unpinned and removed from the manager by then.
\<close>

theorem load_config_counterexample:
  "fst (load_config tk_always (Document doc_missing_config) manager_one) \<noteq> manager_one
   \<and> active_widgets manager_one \<noteq> []
   \<and> active_widgets (fst (load_config tk_always (Document doc_missing_config) manager_one)) = []
   \<and> snd (load_config tk_always (Document doc_missing_config) manager_one) = Error_toast"
  by (simp add: load_doc_missing_config) (simp add: manager_one_eval)

text \<open>
  C5. Let the layout file hold a list of records under \<open>widgets\<close>, each of which the
  loading loop can process (\<open>loadable\<close>: the record has a hashable \<open>type\<close>; when
  the type is a known one it also has \<open>config\<close> and \<open>name\<close>, and its pinning, if
  asked for, succeeds). Then \<open>load_config\<close> ends with the success toast, and the widgets
  of the manager are, in order, the widgets described by the records of a known type:
  the records of an unknown type are skipped. Whatever the file and the manager,
  \<open>load_config\<close> never ends by raising.
\<close>

theorem load_skips_unknown_types:
  assumes "map_of kvs ''widgets'' = Some (JList recs)" and "\<forall>r \<in> set recs. loadable tk r"
  shows "snd (load_config tk (Document (JObj kvs)) m) = Success_toast
    \<and> map Some (observe (fst (load_config tk (Document (JObj kvs)) m))) =
        map record_instance (filter recognized recs)
    \<and> snd (load_config tk file m') \<noteq> Raised e"
  using load_config_document[OF assms] load_config_never_raises by simp

lemma records_with_unknown_loadable: "\<forall>r \<in> set records_with_unknown. loadable tk_always r"
  by (simp add: records_with_unknown_def loadable_def widget_types_def pin_succeeds_def
      tk_always_def)

lemma records_with_unknown_recognized:
  "map recognized records_with_unknown = [True, False, True]"
  by (simp add: records_with_unknown_def recognized_def widget_types_def)

theorem load_skips_unknown_types_witness:
  "map_of [(''widgets'', JList records_with_unknown), (''desktop_positions'', JObj [])] ''widgets''
     = Some (JList records_with_unknown)
   \<and> list_all (loadable tk_always) records_with_unknown
   \<and> map recognized records_with_unknown = [True, False, True]
   \<and> snd (load_config tk_always (Document (JObj
        [(''widgets'', JList records_with_unknown), (''desktop_positions'', JObj [])]))
        manager_one) = Success_toast
   \<and> observe (fst (load_config tk_always (Document (JObj
        [(''widgets'', JList records_with_unknown), (''desktop_positions'', JObj [])]))
        manager_one)) =
      [(''Clock'', ClockWidget, JStr ''Clock #1'', JObj [(''width'', JInt 280)], False, None),
       (''Timer'', TimerWidget, JStr ''Timer #3'', get_default_config TimerWidget, True,
        Some (JInt 300, JInt 200))]"
proof -
  have k: "map_of [(''widgets'', JList records_with_unknown), (''desktop_positions'', JObj [])]
      ''widgets'' = Some (JList records_with_unknown)"
    by simp
  have f: "map record_instance (filter recognized records_with_unknown) =
      map Some
      [(''Clock'', ClockWidget, JStr ''Clock #1'', JObj [(''width'', JInt 280)], False, None),
       (''Timer'', TimerWidget, JStr ''Timer #3'', get_default_config TimerWidget, True,
        Some (JInt 300, JInt 200))]"
    by (simp add: records_with_unknown_def recognized_def widget_types_def)
  from load_skips_unknown_types [OF k records_with_unknown_loadable, of manager_one]
  have "snd (load_config tk_always (Document (JObj
        [(''widgets'', JList records_with_unknown), (''desktop_positions'', JObj [])]))
        manager_one) = Success_toast"
    and "map Some (observe (fst (load_config tk_always (Document (JObj
        [(''widgets'', JList records_with_unknown), (''desktop_positions'', JObj [])]))
        manager_one))) = map record_instance (filter recognized records_with_unknown)"
    by simp_all
  then show ?thesis
    unfolding f using k records_with_unknown_loadable records_with_unknown_recognized
    by (simp only: inj_map_eq_map[OF inj_Some] list_all_iff simp_thms)
qed

lemma save_widget_record:
  assumes "wf_widget tk m w"
  shows "loadable tk (save_widget m w) \<and> recognized (save_widget m w)
       \<and> record_instance (save_widget m w) = Some (observe_widget m w)"
proof -
  have t: "widget_types_get (JStr (wi_type w)) = Some (wi_type w, inst_class (wi_instance w))"
    using assms by (simp add: wf_widget_def)
  have c: "py_bool (config (wi_instance w))"
    using assms by (simp add: wf_widget_def)
  show ?thesis
  proof (cases "info_pinned m w")
    case True
    then have "pin_succeeds tk (inst_class (wi_instance w)) (config (wi_instance w)) (position_of m w)"
      using assms by (simp add: wf_widget_def)
    then show ?thesis
      using True t c
      by (simp add: save_widget_def loadable_def recognized_def observe_widget_def position_of_def)
  next
    case False
    then show ?thesis
      using t c
      by (simp add: save_widget_def loadable_def recognized_def observe_widget_def)
  qed
qed

lemma load_saved:
  assumes "list_all (wf_widget tk m) (active_widgets m)"
  shows "snd (load_config tk (Document (config_data_of m)) m0) = Success_toast
       \<and> observe (fst (load_config tk (Document (config_data_of m)) m0)) = observe m"
proof -
  let ?recs = "map (save_widget m) (active_widgets m)"
  let ?kvs = "[(''widgets'', JList ?recs), (''desktop_positions'', JObj [])]"
  have w: "\<forall>w \<in> set (active_widgets m). wf_widget tk m w"
    using assms by (simp add: list_all_iff)
  have k: "map_of ?kvs ''widgets'' = Some (JList ?recs)"
    by simp
  have l: "\<forall>r \<in> set ?recs. loadable tk r"
    using w save_widget_record by auto
  have f: "filter recognized ?recs = ?recs"
    using w save_widget_record by (auto simp: filter_id_conv)
  have "\<forall>w \<in> set (active_widgets m). record_instance (save_widget m w) = Some (observe_widget m w)"
    using w save_widget_record by blast
  then have r: "map record_instance ?recs = map Some (observe m)"
    by (simp add: observe_def)
  from load_config_document[OF k l, of m0]
  have "snd (load_config tk (Document (JObj ?kvs)) m0) = Success_toast"
    and "map Some (observe (fst (load_config tk (Document (JObj ?kvs)) m0))) = map Some (observe m)"
    unfolding f r by simp_all
  then show ?thesis
    unfolding config_data_of_def by (simp only: inj_map_eq_map[OF inj_Some] simp_thms)
qed

lemma manager_three_wf: "list_all (wf_widget tk_always manager_three) (active_widgets manager_three)"
  by (simp add: manager_three_eval wf_widget_def widget_types_def info_pinned_def
      pin_succeeds_def tk_always_def)

lemma manager_init_wf: "list_all (wf_widget tk_always manager_init) (active_widgets manager_init)"
  by (simp add: manager_init_def)

lemma observe_manager_three:
  "observe manager_three =
     [(''Clock'', ClockWidget, JStr ''Clock #1'', get_default_config ClockWidget, True,
       Some (JInt 100, JInt 100)),
      (''Timer'', TimerWidget, JStr ''Timer #2'', get_default_config TimerWidget, False, None),
      (''Todo List'', TodoWidget, JStr ''Todo List #3'', get_default_config TodoWidget, True,
       Some (JInt 160, JInt 160))]"
  by (simp add: manager_three_eval observe_def observe_widget_def info_pinned_def position_of_def)

text \<open>
  C1. Let \<open>m\<close> be a manager whose widgets are well formed (\<open>wf_widget\<close>, which holds
  of every manager that commands reach, see \<open>reachable_wf\<close>), with any number of
  widgets, pinned or not. \<open>save_config\<close>, when the file is written, writes
  \<open>config_data_of m\<close>. \<open>load_config\<close> run on that file, into any manager \<open>m0\<close>
  (the one just saved, the empty one of a new start, or any other), ends with the
  success toast and gives a manager with the observation of \<open>m\<close>, widget by widget
  in the same order: type, class, name, configuration, pinned flag and, when pinned,
  position. So the multisets of observations are equal as well.
\<close>

theorem save_load_round_trip:
  assumes "list_all (wf_widget tk m) (active_widgets m)"
  shows "save_config Written m file = (Document (config_data_of m), Success_toast)
    \<and> snd (load_config tk (fst (save_config Written m file)) m0) = Success_toast
    \<and> observe (fst (load_config tk (fst (save_config Written m file)) m0)) = observe m
    \<and> mset (observe (fst (load_config tk (fst (save_config Written m file)) m0))) =
        mset (observe m)"
proof -
  have s: "save_config Written m file = (Document (config_data_of m), Success_toast)"
    by (simp add: save_config_def)
  show ?thesis
    using load_saved[OF assms, of m0] by (simp add: s)
qed

theorem save_load_round_trip_witness:
  "list_all (wf_widget tk_always manager_three) (active_widgets manager_three)
   \<and> observe manager_init = []
   \<and> observe (fst (load_config tk_always (fst (save_config Written manager_three Missing))
        manager_init)) =
     [(''Clock'', ClockWidget, JStr ''Clock #1'', get_default_config ClockWidget, True,
       Some (JInt 100, JInt 100)),
      (''Timer'', TimerWidget, JStr ''Timer #2'', get_default_config TimerWidget, False, None),
      (''Todo List'', TodoWidget, JStr ''Todo List #3'', get_default_config TodoWidget, True,
       Some (JInt 160, JInt 160))]
   \<and> observe (fst (load_config tk_always (fst (save_config Written manager_three Missing))
        manager_two)) = observe manager_three
   \<and> list_all (wf_widget tk_always manager_init) (active_widgets manager_init)
   \<and> observe (fst (load_config tk_always (fst (save_config Written manager_init Unreadable))
        manager_three)) = []"
proof -
  have e: "observe manager_init = []"
    by (simp add: observe_def manager_init_def)
  from save_load_round_trip [OF manager_three_wf, of Missing manager_init]
  have a: "observe (fst (load_config tk_always (fst (save_config Written manager_three Missing))
        manager_init)) = observe manager_three"
    by blast
  from save_load_round_trip [OF manager_three_wf, of Missing manager_two]
  have b: "observe (fst (load_config tk_always (fst (save_config Written manager_three Missing))
        manager_two)) = observe manager_three"
    by blast
  from save_load_round_trip [OF manager_init_wf, of Unreadable manager_three]
  have c: "observe (fst (load_config tk_always (fst (save_config Written manager_init Unreadable))
        manager_three)) = observe manager_init"
    by blast
  show ?thesis
    unfolding a b c e observe_manager_three
    using manager_three_wf manager_init_wf by simp
qed

end
